theory Spec2Isabelle
  imports Main "HOL-Library.Word"
begin

unbundle bit_operations_syntax

section \<open>The component tree (types/index.ts)\<close>

text \<open>
  A \<open>UIComponent\<close> has an id, a type, a property bag, optional children and optional
  metadata.  A child is a nested component, a literal text or a placeholder.  JavaScript
  strings are modelled as HOL strings (code units below 256).
\<close>

record Metadata =
  generated_at :: string
  prompt :: "string option"
  version :: "int option"

datatype JSValue = JSString string | JSNumber int | JSBool bool | JSNull

type_synonym Props = "(string \<times> JSValue) list"

datatype TriggerType = OnClick | OnSubmit | OnChange

datatype UIComponent =
  UIComponent (comp_id: string) (comp_type: string) (comp_props: Props)
    (comp_children: "UIChild list option") (comp_metadata: "Metadata option")
and UIChild = ChildComponent UIComponent | ChildText string | ChildPlaceholder UIPlaceholder
and UIPlaceholder =
  UIPlaceholder (ph_id: string) (ph_generationPrompt: string)
    (ph_triggerComponent: UIComponent) (ph_triggerType: "TriggerType option")

text \<open>
  \<open>Partial<UIComponent>\<close>: every property may be absent.  \<open>None\<close> is an absent
  property, \<open>Some v\<close> a property that is present with value \<open>v\<close>.
\<close>

record ComponentUpdates =
  upd_id :: "string option"
  upd_type :: "string option"
  upd_props :: "Props option"
  upd_children :: "UIChild list option"
  upd_metadata :: "Metadata option"

text \<open>The object spread \<open>{ ...c, ...updates }\<close>: a property of \<open>updates\<close> wins.\<close>

definition spread :: "UIComponent \<Rightarrow> ComponentUpdates \<Rightarrow> UIComponent" where
  "spread c updates =
     UIComponent
       (case upd_id updates of None \<Rightarrow> comp_id c | Some v \<Rightarrow> v)
       (case upd_type updates of None \<Rightarrow> comp_type c | Some v \<Rightarrow> v)
       (case upd_props updates of None \<Rightarrow> comp_props c | Some v \<Rightarrow> v)
       (case upd_children updates of None \<Rightarrow> comp_children c | Some v \<Rightarrow> Some v)
       (case upd_metadata updates of None \<Rightarrow> comp_metadata c | Some v \<Rightarrow> Some v)"

text \<open>
  \<open>PatchService.findComponent\<close>: depth-first search for an id.  The source filters the
  text children out before it recurses; here the traversal skips them.  A placeholder child
  is compared by its id and has no children of its own.
\<close>

fun findComponent :: "UIChild list \<Rightarrow> string \<Rightarrow> UIChild option" where
  "findComponent [] i = None"
| "findComponent (ChildText s # rest) i = findComponent rest i"
| "findComponent (ChildPlaceholder p # rest) i =
     (if ph_id p = i then Some (ChildPlaceholder p) else findComponent rest i)"
| "findComponent (ChildComponent (UIComponent cid ty pr None md) # rest) i =
     (if cid = i then Some (ChildComponent (UIComponent cid ty pr None md))
      else findComponent rest i)"
| "findComponent (ChildComponent (UIComponent cid ty pr (Some ch) md) # rest) i =
     (if cid = i then Some (ChildComponent (UIComponent cid ty pr (Some ch) md))
      else (case findComponent ch i of
              Some found \<Rightarrow> Some found
            | None \<Rightarrow> findComponent rest i))"

section \<open>The application store (store/appStore.ts)\<close>

record AppState =
  currentComponents :: "UIComponent list"
  isGenerating :: bool
  error :: "string option"

text \<open>\<open>Array.prototype.findIndex\<close>; \<open>None\<close> stands for the result \<open>-1\<close>.\<close>

fun findIndex :: "('a \<Rightarrow> bool) \<Rightarrow> 'a list \<Rightarrow> nat option" where
  "findIndex P [] = None"
| "findIndex P (x # xs) =
     (if P x then Some 0 else (case findIndex P xs of None \<Rightarrow> None | Some k \<Rightarrow> Some (Suc k)))"

definition updateComponent :: "string \<Rightarrow> ComponentUpdates \<Rightarrow> AppState \<Rightarrow> AppState" where
  "updateComponent componentId updates state =
     state\<lparr>currentComponents :=
       map (\<lambda>c. if comp_id c = componentId then spread c updates else c)
         (currentComponents state)\<rparr>"

definition removeComponent :: "string \<Rightarrow> AppState \<Rightarrow> AppState" where
  "removeComponent componentId state =
     state\<lparr>currentComponents :=
       filter (\<lambda>c. comp_id c \<noteq> componentId) (currentComponents state)\<rparr>"

definition insertComponentAfter :: "string \<Rightarrow> UIComponent \<Rightarrow> AppState \<Rightarrow> AppState" where
  "insertComponentAfter targetComponentId newComponent state =
     (let cs = currentComponents state in
      case findIndex (\<lambda>c. comp_id c = targetComponentId) cs of
        Some targetIndex \<Rightarrow>
          state\<lparr>currentComponents :=
            take (targetIndex + 1) cs @ [newComponent] @ drop (targetIndex + 1) cs\<rparr>
      | None \<Rightarrow> state\<lparr>currentComponents := cs @ [newComponent]\<rparr>)"

text \<open>
  The replacement step of \<open>generatePlaceholder\<close>:
  \<open>currentComponents.flatMap(comp => comp.id === placeholder.id ? newComponents : [comp])\<close>.
\<close>

definition replacePlaceholder ::
  "UIComponent list \<Rightarrow> string \<Rightarrow> UIComponent list \<Rightarrow> UIComponent list" where
  "replacePlaceholder components placeholderId newComponents =
     concat (map (\<lambda>comp. if comp_id comp = placeholderId then newComponents else [comp])
       components)"

text \<open>
  \<open>generatePlaceholder\<close>.  The run of the multi-agent generator on the final prompt is
  the argument \<open>generated\<close>: \<open>Inl msg\<close> when the dynamic import or the run raises,
  \<open>Inr (newComponents, success)\<close> otherwise.
\<close>

definition generatePlaceholder ::
  "UIPlaceholder \<Rightarrow> (string + UIComponent list \<times> bool) \<Rightarrow> AppState \<Rightarrow> AppState" where
  "generatePlaceholder placeholder generated state =
     (let currentComponents0 = currentComponents state;
          state1 = state\<lparr>isGenerating := True, error := None\<rparr> in
      case generated of
        Inl msg \<Rightarrow> state1\<lparr>error := Some msg, isGenerating := False\<rparr>
      | Inr (newComponents, success) \<Rightarrow>
          if \<not> success
          then state1\<lparr>error := Some ''Placeholder generation failed'', isGenerating := False\<rparr>
          else state1\<lparr>currentComponents :=
                        replacePlaceholder currentComponents0 (ph_id placeholder) newComponents,
                      isGenerating := False\<rparr>)"

section \<open>Strings and JSON text\<close>

text \<open>\<open>Array.prototype.join\<close> on an array of strings.\<close>

definition join :: "string list \<Rightarrow> string \<Rightarrow> string" where
  "join xs sep = (case xs of [] \<Rightarrow> [] | y # ys \<Rightarrow> foldl (\<lambda>acc s. acc @ sep @ s) y ys)"

text \<open>The decimal numeral of a non-negative integer, as string conversion prints it.\<close>

fun showNat :: "nat \<Rightarrow> string" where
  "showNat n =
     (if n < 10 then [''0123456789'' ! n]
      else showNat (n div 10) @ [''0123456789'' ! (n mod 10)])"

declare showNat.simps [simp del]

text \<open>
  \<open>JSON.stringify\<close> on a string: the quotation mark, the backslash and the control
  characters are escaped, everything else is copied.
\<close>

definition escapeJSONChar :: "char \<Rightarrow> string" where
  "escapeJSONChar c =
     (if c = CHR 0x22 then [CHR 0x5C, CHR 0x22]
      else if c = CHR 0x5C then [CHR 0x5C, CHR 0x5C]
      else if c = CHR 0x08 then [CHR 0x5C, CHR ''b'']
      else if c = CHR 0x0C then [CHR 0x5C, CHR ''f'']
      else if c = CHR 0x0A then [CHR 0x5C, CHR ''n'']
      else if c = CHR 0x0D then [CHR 0x5C, CHR ''r'']
      else if c = CHR 0x09 then [CHR 0x5C, CHR ''t'']
      else if (of_char c :: nat) < 32
        then [CHR 0x5C, CHR ''u'', CHR ''0'', CHR ''0'',
              ''0123456789abcdef'' ! (of_char c div 16),
              ''0123456789abcdef'' ! (of_char c mod 16)]
      else [c])"

definition quoteJSONString :: "string \<Rightarrow> string" where
  "quoteJSONString s = CHR 0x22 # concat (map escapeJSONChar s) @ [CHR 0x22]"

text \<open>\<open>JSON.stringify\<close> on an object whose property values are all strings.\<close>

definition stringifyObject :: "(string \<times> string) list \<Rightarrow> string" where
  "stringifyObject entries =
     ''{'' @ join (map (\<lambda>(k, v). quoteJSONString k @ '':'' @ quoteJSONString v) entries) '',''
       @ ''}''"

section \<open>Generation contexts (lib/contextManager.ts)\<close>

datatype ContextTriggerType = TriggerError | UserInteraction | RecursiveGeneration

record Position =
  pos_index :: nat
  pos_depth :: nat

record TriggerElement =
  elem_id :: string
  elem_type :: string
  elem_props :: Props
  textContent :: "string option"
  position :: Position

record FullAppState =
  allComponents :: "UIComponent list"
  componentCount :: nat
  hasErrors :: bool
  lastUserActions :: "string list"
  app_metadata :: Props

record EnvironmentInfo =
  viewport_width :: nat
  viewport_height :: nat
  userAgent :: string
  env_timestamp :: string

record FullContext =
  triggerId :: string
  triggerType :: ContextTriggerType
  timestamp :: string
  triggerElement :: TriggerElement
  userInput :: "string option"
  componentHierarchy :: "UIComponent list"
  siblingComponents :: "UIComponent list"
  parentComponent :: "UIComponent option"
  appState :: FullAppState
  environmentInfo :: EnvironmentInfo

section \<open>The cache key (services/cacheService.ts)\<close>

definition CACHE_PREFIX :: string where
  "CACHE_PREFIX = ''recursive-cache-''"

text \<open>
  \<open>ToInt32\<close>: the value of a number as a signed 32-bit integer, which is what
  \<open>hash << 5\<close> and \<open>hash |= 0\<close> produce.
\<close>

definition toInt32 :: "int \<Rightarrow> int" where
  "toInt32 x = (x + 2147483648) mod 4294967296 - 2147483648"

text \<open>
  The loop \<open>hash = (hash << 5) - hash + char; hash |= 0\<close> over the code units of the
  key string.
\<close>

fun hashLoop :: "string \<Rightarrow> int \<Rightarrow> int" where
  "hashLoop [] hash = hash"
| "hashLoop (c # cs) hash = hashLoop cs (toInt32 (toInt32 (hash * 32) - hash + of_char c))"

text \<open>\<open>x || ''\<close> on an optional string: absent and empty both give the empty string.\<close>

definition orEmpty :: "string option \<Rightarrow> string" where
  "orEmpty v = (case v of None \<Rightarrow> [] | Some s \<Rightarrow> s)"

definition keyParts :: "FullContext \<Rightarrow> (string \<times> string) list" where
  "keyParts context =
     [(''triggerId'', elem_id (triggerElement context)),
      (''triggerType'', elem_type (triggerElement context)),
      (''input'', orEmpty (userInput context)),
      (''parent'', orEmpty (map_option comp_id (parentComponent context))),
      (''siblings'', join (map comp_id (siblingComponents context)) '','')]"

definition createCacheKey :: "FullContext \<Rightarrow> string" where
  "createCacheKey context =
     (let keyString = stringifyObject (keyParts context);
          hash = hashLoop keyString 0
      in CACHE_PREFIX @ showNat (nat \<bar>hash\<bar>))"

section \<open>Logging (services/logger.ts)\<close>

text \<open>
  The logger is a collaborator; its calls are kept as a list of entries, oldest first (debug
  mode is on, its default).  \<open>Log level component message\<close> is a plain call; of a run of
  plain calls that only trace progress the model keeps one.  The four
  calls of the pipeline's retry wrapper carry the step index (and the retry count) in their
  data argument and have a constructor each.  \<open>OperationStarted\<close> and
  \<open>OperationEnded\<close> are \<open>logger.startOperation\<close> and \<open>logger.endOperation\<close>;
  \<open>PatchProcessing componentId error\<close> is the patch service's call that announces the
  request it has taken from its queue.
\<close>

datatype LogLevel = LogDebug | LogInfo | LogWarn | LogError

datatype LogEntry =
  Log LogLevel string string
| StepStarted nat nat
| StepCompleted nat
| StepRetry nat nat
| StepFailed nat string
| OperationStarted string string
| OperationEnded string string bool
| PatchProcessing string string

record Logged =
  logs :: "LogEntry list"

definition logEntry :: "LogEntry \<Rightarrow> 'a Logged_scheme \<Rightarrow> 'a Logged_scheme" where
  "logEntry e w = w\<lparr>logs := logs w @ [e]\<rparr>"

definition logger :: "LogLevel \<Rightarrow> string \<Rightarrow> string \<Rightarrow> 'a Logged_scheme \<Rightarrow> 'a Logged_scheme" where
  "logger level component message w = logEntry (Log level component message) w"

section \<open>Event handler resolution (lib/functionResolver.ts)\<close>

text \<open>
  A handler is a function object.  \<open>RegistryFunction n\<close> is the closure that the source
  registers under the name \<open>n\<close>, \<open>ProvidedFunction k\<close> any other function object (told
  apart by \<open>k\<close>), \<open>RecursiveHandler c e n\<close> the closure that
  \<open>createRecursiveHandler(c, e, n)\<close> returns (its body is \<open>recursiveHandlerBody\<close> below), and
  \<open>InheritedFunction n\<close> the built-in method that \<open>Object.prototype\<close> holds under the
  name \<open>n\<close>.
\<close>

datatype EventHandler =
  RegistryFunction string
| ProvidedFunction nat
| RecursiveHandler string string string
| InheritedFunction string

text \<open>A property value of type \<open>unknown\<close>, as far as \<open>typeof\<close> tells.\<close>

datatype PropValue =
  PropString string
| PropFunction EventHandler
| PropUndefined
| PropOther JSValue

text \<open>
  What the read \<open>functionRegistry[name]\<close> yields when it is not \<open>undefined\<close>, and so what
  \<open>resolveEventHandler\<close> can return: a function object, or the object \<open>Object.prototype\<close>
  itself.  Both are truthy; \<open>callable\<close> is the test \<open>typeof v === 'function'\<close>.
\<close>

datatype ResolvedValue =
  Callable EventHandler
| ObjectPrototype

fun callable :: "ResolvedValue \<Rightarrow> bool" where
  "callable (Callable f) = True"
| "callable ObjectPrototype = False"

text \<open>
  The registry is an object literal indexed by name (\<open>{ [key: string]: EventHandler }\<close>).
  \<open>FunctionRegistry\<close> is the finite map of its own properties, and \<open>functionRegistry\<close> the
  sixteen entries of the literal.
\<close>

type_synonym FunctionRegistry = "string \<rightharpoonup> EventHandler"

definition functionRegistry :: FunctionRegistry where
  "functionRegistry =
     map_of (map (\<lambda>n. (n, RegistryFunction n))
       [''noop'', ''preventDefault'', ''stopPropagation'', ''logClick'', ''alertClick'',
        ''consoleLog'', ''submitForm'', ''logFormSubmit'', ''logChange'', ''validateInput'',
        ''closeModal'', ''openModal'', ''navigateHome'', ''navigateBack'', ''performSearch'',
        ''logInteraction''])"

text \<open>
  An object literal has the prototype \<open>Object.prototype\<close>, and a read by name that finds no
  own property goes on there.  \<open>Object.prototype\<close> holds the methods listed in
  \<open>objectPrototypeMethods\<close> and the accessor \<open>__proto__\<close>, whose getter answers the
  prototype of the object read, here \<open>Object.prototype\<close> itself.
\<close>

definition objectPrototypeMethods :: "string list" where
  "objectPrototypeMethods =
     [''constructor'', ''hasOwnProperty'', ''isPrototypeOf'', ''propertyIsEnumerable'',
      ''toLocaleString'', ''toString'', ''valueOf'', ''__defineGetter__'', ''__defineSetter__'',
      ''__lookupGetter__'', ''__lookupSetter__'']"

definition objectPrototypeGet :: "string \<Rightarrow> ResolvedValue option" where
  "objectPrototypeGet name =
     (if name = ''__proto__'' then Some ObjectPrototype
      else if name \<in> set objectPrototypeMethods then Some (Callable (InheritedFunction name))
      else None)"

text \<open>The read \<open>registry[name]\<close>; \<open>None\<close> stands for \<open>undefined\<close>.\<close>

definition registryGet :: "FunctionRegistry \<Rightarrow> string \<Rightarrow> ResolvedValue option" where
  "registryGet registry name =
     (case registry name of
        Some fn \<Rightarrow> Some (Callable fn)
      | None \<Rightarrow> objectPrototypeGet name)"

definition createRecursiveHandler :: "string \<Rightarrow> string \<Rightarrow> string \<Rightarrow> EventHandler" where
  "createRecursiveHandler componentId elementId eventName =
     RecursiveHandler componentId elementId eventName"

text \<open>
  \<open>resolveEventHandler\<close>, in the order of the source: first the test
  \<open>typeof propValue === 'string' && functionRegistry[propValue]\<close>, which holds as soon as the
  read yields anything, and returns what the read yields; then the function test; then the
  fallback.
\<close>

definition resolveEventHandler ::
  "FunctionRegistry \<Rightarrow> string \<Rightarrow> PropValue \<Rightarrow> string \<Rightarrow> string \<Rightarrow> ResolvedValue" where
  "resolveEventHandler registry propName propValue componentId elementId =
     (case (case propValue of PropString s \<Rightarrow> registryGet registry s | _ \<Rightarrow> None) of
        Some registered \<Rightarrow> registered
      | None \<Rightarrow>
          (case propValue of
             PropFunction f \<Rightarrow> Callable f
           | _ \<Rightarrow> Callable (createRecursiveHandler componentId elementId propName)))"

text \<open>
  The resolution chain in the order the specification gives: a callable first, then a name
  that is an entry of the registry, then the generative fallback.
\<close>

definition resolveByPrecedence ::
  "FunctionRegistry \<Rightarrow> string \<Rightarrow> PropValue \<Rightarrow> string \<Rightarrow> string \<Rightarrow> EventHandler" where
  "resolveByPrecedence registry eventName declaredValue componentId elementId =
     (case declaredValue of
        PropFunction f \<Rightarrow> f
      | PropString name \<Rightarrow>
          (case registry name of
             Some registered \<Rightarrow> registered
           | None \<Rightarrow> RecursiveHandler componentId elementId eventName)
      | _ \<Rightarrow> RecursiveHandler componentId elementId eventName)"

section \<open>Running a chain (services/aiService.ts)\<close>

text \<open>
  \<open>AIService.runChain\<close>.  The invocation of the chain is the argument \<open>invoked\<close>:
  \<open>Inl msg\<close> when the call raises, \<open>Inr rawResult\<close> the text it returns.  \<open>decode\<close> is
  \<open>JSON.parse(extractJson(rawResult))\<close> read at the expected type: \<open>Inl msg\<close> when it
  raises.  Every failure is raised again as \<open>errorMessage: msg\<close>.
\<close>

definition runChain ::
  "string \<Rightarrow> (string \<Rightarrow> string + 'a) \<Rightarrow> string \<Rightarrow> (string + string) \<Rightarrow>
     'l Logged_scheme \<Rightarrow> (string + 'a) \<times> 'l Logged_scheme" where
  "runChain chainName decode errorMessage invoked w =
     (let w1 = logger LogInfo ''AIService'' (''Invoking '' @ chainName @ '' chain'') w in
      case invoked of
        Inl msg \<Rightarrow>
          (Inl (errorMessage @ '': '' @ msg),
           logger LogError ''AIService'' (''Error invoking '' @ chainName @ '' chain'') w1)
      | Inr rawResult \<Rightarrow>
          (let w2 = logger LogInfo ''AIService'' (''LLM call for '' @ chainName @ '' successful'') w1
           in case decode rawResult of
                Inl msg \<Rightarrow>
                  (Inl (errorMessage @ '': '' @ msg),
                   logger LogError ''AIService'' (''Error invoking '' @ chainName @ '' chain'') w2)
              | Inr parsedResult \<Rightarrow>
                  (Inr parsedResult,
                   logger LogInfo ''AIService''
                     (''Successfully parsed response from '' @ chainName) w2)))"

section \<open>The multi-agent generation pipeline (services/multiAgentGenerator.ts)\<close>

record ComponentAnalysis =
  requiredComponents :: "string list"
  customComponents :: "(string \<times> string) list"
  compositeComponents :: "(string \<times> string list \<times> string) list"
  reasoning :: string

text \<open>The analyzer's parsed reply before validation: every property may be missing.\<close>

record RawAnalysis =
  raw_requiredComponents :: "string list option"
  raw_customComponents :: "(string \<times> string) list option"
  raw_compositeComponents :: "(string \<times> string list \<times> string) list option"
  raw_reasoning :: "string option"

record FetchResult =
  fetch_success :: bool
  fetch_component :: string
  fetch_error :: "string option"

datatype StepStatus = Pending | Running | Completed | Failed

datatype StepResult =
  AnalysisResult ComponentAnalysis
| AvailabilityResult "string list" "string list"
| FetchResults "FetchResult list"
| TextResult string
| ComponentsResult "UIComponent list"

record GenerationStep =
  step_no :: nat
  description :: string
  status :: StepStatus
  step_result :: "StepResult option"
  step_error :: "string option"
  retryCount :: "nat option"

record UIGenerationContext =
  userPrompt :: string
  analyzedComponents :: "ComponentAnalysis option"
  availableComponents :: "string list"
  generatedCode :: string
  steps :: "GenerationStep list"

text \<open>
  The collaborators of one pipeline run.  The two chains answer their \<open>k\<close>-th invocation
  with a raw text or a failure.  \<open>parseAnalysis\<close> and \<open>parseComponents\<close> are
  \<open>JSON.parse(extractJson(raw))\<close>, read at the result types that the source declares
  (\<open>ComponentAnalysis\<close> and \<open>UIComponent[]\<close>); \<open>stringifyComponents\<close> is
  \<open>JSON.stringify(components, null, 2)\<close>.  \<open>parseGeneratedCode\<close> is the \<open>try\<close> block
  of \<open>assembleComponents\<close>, that is \<open>JSON.parse(generatedCode)\<close> followed by the read of
  \<open>components.length\<close>: it answers \<open>Inl msg\<close> when the text does not parse and when it
  parses to \<open>null\<close>, whose length cannot be read.  The service imports \<open>extractJson\<close> from
  \<open>lib/ai-parsers\<close>, which is not among the sources at hand
  (\<open>lib/generationTriggers.ts\<close> has a function of that name), and the component cache
  \<open>cache.json\<close> is not either, so both stay parameters.  \<open>dateNow\<close> and \<open>isoNow\<close> are
  the clock readings.
\<close>

record PipelineEnv =
  analyzerChain :: "nat \<Rightarrow> string + string"
  codeGeneratorChain :: "nat \<Rightarrow> string + string"
  parseAnalysis :: "string \<Rightarrow> string + RawAnalysis"
  parseComponents :: "string \<Rightarrow> string + UIComponent list"
  stringifyComponents :: "UIComponent list \<Rightarrow> string"
  parseGeneratedCode :: "string \<Rightarrow> string + UIComponent list"
  shadcnCache :: "string \<rightharpoonup> bool"
  dateNow :: nat
  isoNow :: string

record PipelineState = Logged +
  ctx :: UIGenerationContext
  analyzerCalls :: nat
  codeGeneratorCalls :: nat

definition maxRetries :: nat where
  "maxRetries = 3"

text \<open>
  \<open>String.prototype.toLowerCase\<close> and \<open>trim\<close> on code units below 256.  An upper-case
  letter becomes the lower-case one by adding 32, that is by setting bit 5.
\<close>

definition lowerChar :: "char \<Rightarrow> char" where
  "lowerChar c =
     (let n = (of_char c :: nat) in
      if (65 \<le> n \<and> n \<le> 90) \<or> (192 \<le> n \<and> n \<le> 222 \<and> n \<noteq> 215)
      then Char (digit0 c) (digit1 c) (digit2 c) (digit3 c) (digit4 c) True (digit6 c) (digit7 c)
      else c)"

definition toLowerCase :: "string \<Rightarrow> string" where
  "toLowerCase s = map lowerChar s"

definition isWhiteSpace :: "char \<Rightarrow> bool" where
  "isWhiteSpace c = (let n = (of_char c :: nat) in (9 \<le> n \<and> n \<le> 13) \<or> n = 32 \<or> n = 160)"

definition trim :: "string \<Rightarrow> string" where
  "trim s = rev (dropWhile isWhiteSpace (rev (dropWhile isWhiteSpace s)))"

text \<open>The elements of \<open>[...new Set(xs)]\<close>: first occurrences, in order.\<close>

definition uniqueInOrder :: "'a list \<Rightarrow> 'a list" where
  "uniqueInOrder xs = rev (remdups (rev xs))"

definition availableShadcnComponents :: "string list" where
  "availableShadcnComponents =
     [''Accordion'', ''Alert'', ''AlertDialog'', ''AspectRatio'', ''Avatar'', ''Badge'',
      ''Breadcrumb'', ''Button'', ''Calendar'', ''Card'', ''Carousel'', ''Chart'', ''Checkbox'',
      ''Collapsible'', ''Combobox'', ''Command'', ''ContextMenu'', ''DataTable'', ''DatePicker'',
      ''Dialog'', ''Drawer'', ''DropdownMenu'', ''HoverCard'', ''Input'', ''InputOtp'', ''Label'',
      ''Menubar'', ''NavigationMenu'', ''Pagination'', ''Popover'', ''Progress'', ''RadioGroup'',
      ''Resizable'', ''ScrollArea'', ''Select'', ''Separator'', ''Sheet'', ''Sidebar'',
      ''Skeleton'', ''Slider'', ''Sonner'', ''Switch'', ''Table'', ''Tabs'', ''Textarea'',
      ''Toast'', ''Toggle'', ''ToggleGroup'', ''Tooltip'']"

text \<open>
  The names are lowercased before the pattern \<open>([a-z])([A-Z])\<close> is applied, so the pattern
  never matches and the normalised name is the lowercased one.
\<close>

definition normalizedAvailableComponents :: "string list" where
  "normalizedAvailableComponents = map toLowerCase availableShadcnComponents"

text \<open>\<open>ComponentAnalyzer.validateAnalysis\<close> on a parsed object.\<close>

definition validateAnalysis :: "RawAnalysis \<Rightarrow> ComponentAnalysis" where
  "validateAnalysis analysis =
     \<lparr>requiredComponents =
        (case raw_requiredComponents analysis of None \<Rightarrow> [] | Some v \<Rightarrow> v),
      customComponents = (case raw_customComponents analysis of None \<Rightarrow> [] | Some v \<Rightarrow> v),
      compositeComponents =
        (case raw_compositeComponents analysis of None \<Rightarrow> [] | Some v \<Rightarrow> v),
      reasoning =
        (case raw_reasoning analysis of
           None \<Rightarrow> ''No reasoning provided.''
         | Some v \<Rightarrow> if v = [] then ''No reasoning provided.'' else v)\<rparr>"

definition analysisFailure :: "string \<Rightarrow> ComponentAnalysis" where
  "analysisFailure msg =
     \<lparr>requiredComponents = [], customComponents = [], compositeComponents = [],
      reasoning = ''An error occurred during analysis: '' @ msg\<rparr>"

text \<open>
  The message of the \<open>TypeError\<close> that reading the property \<open>name\<close> of \<open>undefined\<close>
  raises, in the wording of V8.
\<close>

definition cannotReadProperty :: "string \<Rightarrow> string" where
  "cannotReadProperty name =
     ''Cannot read properties of undefined (reading '' @ [CHR 0x27] @ name @ [CHR 0x27] @ '')''"

text \<open>
  \<open>ComponentAnalyzer.analyzeComponents\<close>: every failure inside is caught and answered
  with an empty analysis.  Reading \<open>analysis.requiredComponents.length\<close> for the log
  raises a \<open>TypeError\<close> when the property is missing.
\<close>

definition analyzeComponents ::
  "PipelineEnv \<Rightarrow> string \<Rightarrow> PipelineState \<Rightarrow> ComponentAnalysis \<times> PipelineState" where
  "analyzeComponents env prompt0 s =
     (let s1 = logger LogInfo ''ComponentAnalyzer'' ''Starting component analysis'' s;
          invoked = analyzerChain env (analyzerCalls s1);
          s2 = s1\<lparr>analyzerCalls := analyzerCalls s1 + 1\<rparr>
      in case runChain ''analyzerChain'' (parseAnalysis env) ''Failed to analyze user prompt''
                invoked s2 of
           (Inl msg, s3) \<Rightarrow>
             (analysisFailure msg,
              logger LogError ''ComponentAnalyzer'' ''Component analysis failed'' s3)
         | (Inr analysis, s3) \<Rightarrow>
             (case raw_requiredComponents analysis of
                None \<Rightarrow>
                  (analysisFailure (cannotReadProperty ''length''),
                   logger LogError ''ComponentAnalyzer'' ''Component analysis failed'' s3)
              | Some required \<Rightarrow>
                  (validateAnalysis analysis,
                   logger LogInfo ''ComponentAnalyzer'' ''Component analysis successful'' s3)))"

definition isComponentAvailable :: "PipelineEnv \<Rightarrow> string \<Rightarrow> bool" where
  "isComponentAvailable env componentName =
     (shadcnCache env (toLowerCase componentName) = Some True)"

text \<open>\<open>ComponentFetcher.fetchComponents\<close>: a lookup in the cache, which never raises.\<close>

definition fetchComponents :: "PipelineEnv \<Rightarrow> string list \<Rightarrow> FetchResult list" where
  "fetchComponents env components0 =
     (let normalized = map (\<lambda>c. trim (toLowerCase c)) components0;
          available = filter (\<lambda>n. n \<in> set normalizedAvailableComponents) normalized;
          missing = filter (\<lambda>n. n \<notin> set normalizedAvailableComponents) normalized
      in map (\<lambda>c. if shadcnCache env c = Some True
                 then \<lparr>fetch_success = True, fetch_component = c, fetch_error = None\<rparr>
                 else \<lparr>fetch_success = False, fetch_component = c,
                        fetch_error = Some (''Component '' @ [CHR 0x27] @ c @ [CHR 0x27] @ '' not found in cache'')\<rparr>)
           available
         @ map (\<lambda>c. \<lparr>fetch_success = False, fetch_component = c,
                     fetch_error =
                       Some (''Component '' @ [CHR 0x27] @ c @ [CHR 0x27] @
                             '' not available in Shadcn registry'')\<rparr>)
             missing)"

definition initialSteps :: "GenerationStep list" where
  "initialSteps =
     map (\<lambda>(n, d). \<lparr>step_no = n, description = d, status = Pending, step_result = None,
                     step_error = None, retryCount = None\<rparr>)
       [(1, ''Analyze UI requirements''),
        (2, ''Check component availability''),
        (3, ''Fetch missing components''),
        (4, ''Generate component code''),
        (5, ''Validate and assemble UI'')]"

definition updateStep ::
  "nat \<Rightarrow> (GenerationStep \<Rightarrow> GenerationStep) \<Rightarrow> PipelineState \<Rightarrow> PipelineState" where
  "updateStep stepIndex f s =
     s\<lparr>ctx := (ctx s)\<lparr>steps := (steps (ctx s))[stepIndex := f (steps (ctx s) ! stepIndex)]\<rparr>\<rparr>"

text \<open>
  \<open>executeStep\<close>: the retry wrapper, generic in the result type.  The operation returns
  \<open>Inl msg\<close> when it raises and may have changed the state before; \<open>stored\<close> is how a
  result is kept in the untyped \<open>step.result\<close>.  After a failure the step is run again while
  \<open>retryCount < maxRetries - 1\<close>; otherwise it is marked failed and the error is raised
  again.
\<close>

function executeStep ::
  "('r \<Rightarrow> StepResult) \<Rightarrow> nat \<Rightarrow> (PipelineState \<Rightarrow> (string + 'r) \<times> PipelineState) \<Rightarrow> nat \<Rightarrow>
     PipelineState \<Rightarrow> (string + 'r) \<times> PipelineState" where
  "executeStep stored stepIndex operation retries s =
     (let s1 = logEntry (StepStarted stepIndex retries)
                 (updateStep stepIndex (\<lambda>st. st\<lparr>status := Running, retryCount := Some retries\<rparr>) s)
      in case operation s1 of
           (Inr result, s2) \<Rightarrow>
             (Inr result,
              logEntry (StepCompleted stepIndex)
                (updateStep stepIndex
                   (\<lambda>st. st\<lparr>status := Completed, step_result := Some (stored result)\<rparr>) s2))
         | (Inl errorMessage, s2) \<Rightarrow>
             if retries < maxRetries - 1
             then executeStep stored stepIndex operation (retries + 1)
                    (logEntry (StepRetry stepIndex (retries + 1)) s2)
             else (Inl errorMessage,
                   logEntry (StepFailed stepIndex errorMessage)
                     (updateStep stepIndex
                        (\<lambda>st. st\<lparr>status := Failed, step_error := Some errorMessage\<rparr>) s2)))"
  by pat_completeness auto
termination
  by (relation "measure (\<lambda>(stored, stepIndex, operation, retries, s). maxRetries - 1 - retries)") auto

declare executeStep.simps [simp del]

text \<open>The operation of step 1: the analysis, which never raises.\<close>

definition analyzeOperation ::
  "PipelineEnv \<Rightarrow> string \<Rightarrow> PipelineState \<Rightarrow> (string + ComponentAnalysis) \<times> PipelineState" where
  "analyzeOperation env prompt0 s =
     (case analyzeComponents env prompt0 s of
        (analysis, s1) \<Rightarrow>
          (Inr analysis,
           s1\<lparr>ctx := (ctx s1)\<lparr>analyzedComponents := Some analysis\<rparr>\<rparr>))"

text \<open>The operation of step 2: the required names, split by availability.\<close>

definition availabilityOperation ::
  "PipelineEnv \<Rightarrow> PipelineState \<Rightarrow> (string + string list \<times> string list) \<times> PipelineState" where
  "availabilityOperation env s =
     (case analyzedComponents (ctx s) of
        None \<Rightarrow> (Inl ''No analyzed components available'', s)
      | Some analysis \<Rightarrow>
          (let allRequired = requiredComponents analysis;
               allCompositeShadcn =
                 concat (map (\<lambda>(n, cs, d). cs) (compositeComponents analysis));
               allComponents0 = uniqueInOrder (allRequired @ allCompositeShadcn);
               available = filter (isComponentAvailable env) allComponents0;
               unavailable = filter (\<lambda>c. \<not> isComponentAvailable env c) allComponents0
           in (Inr (available, unavailable),
               s\<lparr>ctx := (ctx s)\<lparr>availableComponents := available\<rparr>\<rparr>)))"

text \<open>The operation of step 3: the fetch of the missing components.\<close>

definition fetchOperation ::
  "PipelineEnv \<Rightarrow> string list \<Rightarrow> PipelineState \<Rightarrow> (string + FetchResult list) \<times> PipelineState" where
  "fetchOperation env unavailable s =
     (Inr (fetchComponents env unavailable),
      logger LogInfo ''ComponentAnalyzer'' ''Reinitialization requested'' s)"

text \<open>
  \<open>generateComponentCode\<close>, the operation of step 4: the code generator chain is run, its
  reply parsed by \<open>runChain\<close>, and the parsed components are turned into text again.
\<close>

definition generateComponentCode ::
  "PipelineEnv \<Rightarrow> PipelineState \<Rightarrow> (string + string) \<times> PipelineState" where
  "generateComponentCode env s =
     (case analyzedComponents (ctx s) of
        None \<Rightarrow> (Inl ''Cannot generate code without component analysis.'', s)
      | Some analysis \<Rightarrow>
          (let invoked = codeGeneratorChain env (codeGeneratorCalls s);
               s1 = s\<lparr>codeGeneratorCalls := codeGeneratorCalls s + 1\<rparr>
           in case runChain ''codeGeneratorChain'' (parseComponents env)
                     ''Failed to generate component code'' invoked s1 of
                (Inl msg, s2) \<Rightarrow> (Inl msg, s2)
              | (Inr components0, s2) \<Rightarrow> (Inr (stringifyComponents env components0), s2)))"

definition generateOperation ::
  "PipelineEnv \<Rightarrow> PipelineState \<Rightarrow> (string + string) \<times> PipelineState" where
  "generateOperation env s =
     (case generateComponentCode env s of
        (Inl msg, s1) \<Rightarrow> (Inl msg, s1)
      | (Inr code, s1) \<Rightarrow> (Inr code, s1\<lparr>ctx := (ctx s1)\<lparr>generatedCode := code\<rparr>\<rparr>))"

text \<open>
  \<open>assembleComponents\<close>, the operation of step 5: the generated code is parsed and the
  number of components read for the log; when either raises, a single fallback card carrying
  the raw text is returned instead.
\<close>

definition fallbackComponent :: "PipelineEnv \<Rightarrow> UIGenerationContext \<Rightarrow> UIComponent" where
  "fallbackComponent env c =
     UIComponent (''fallback-'' @ showNat (dateNow env)) ''card''
       [(''title'', JSString ''Assembly Error''),
        (''content'',
           JSString (''Failed to assemble UI components. Raw output was: '' @ generatedCode c)),
        (''className'', JSString ''border-red-500 bg-red-50 text-red-900'')]
       None
       (Some \<lparr>generated_at = isoNow env, prompt = Some (userPrompt c), version = Some 1\<rparr>)"

definition assembleComponents ::
  "PipelineEnv \<Rightarrow> PipelineState \<Rightarrow> UIComponent list \<times> PipelineState" where
  "assembleComponents env s =
     (let s1 = logger LogDebug ''MultiAgentUIGenerator''
                 ''Assembling components from generated code'' s
      in case parseGeneratedCode env (generatedCode (ctx s1)) of
           Inr components0 \<Rightarrow>
             (components0,
              logger LogInfo ''MultiAgentUIGenerator'' ''Components assembled successfully'' s1)
         | Inl msg \<Rightarrow>
             ([fallbackComponent env (ctx s1)],
              logger LogInfo ''MultiAgentUIGenerator'' ''Returning fallback error component''
                (logger LogError ''MultiAgentUIGenerator'' ''Failed to assemble components'' s1)))"

definition assembleOperation ::
  "PipelineEnv \<Rightarrow> PipelineState \<Rightarrow> (string + UIComponent list) \<times> PipelineState" where
  "assembleOperation env s =
     (case assembleComponents env s of (components0, s1) \<Rightarrow> (Inr components0, s1))"

record GenerationResult =
  components :: "UIComponent list"
  final :: PipelineState
  success :: bool

definition generationFailed :: "PipelineState \<Rightarrow> GenerationResult" where
  "generationFailed s =
     \<lparr>components = [],
      final = logger LogError ''MultiAgentUIGenerator'' ''UI generation failed'' s,
      success = False\<rparr>"

definition initialState :: "string \<Rightarrow> PipelineState" where
  "initialState prompt0 =
     \<lparr>logs = [Log LogInfo ''MultiAgentUIGenerator'' ''Starting UI generation''],
      ctx = \<lparr>userPrompt = prompt0, analyzedComponents = None, availableComponents = [],
              generatedCode = [], steps = initialSteps\<rparr>,
      analyzerCalls = 0, codeGeneratorCalls = 0\<rparr>"

text \<open>
  Step 3 of \<open>generateUI\<close>: the missing names are read from the result of step 2; the fetch
  runs through the retry wrapper when there are any, otherwise the step is marked completed
  directly.  When step 2 left no result, reading \<open>step2Result.unavailable\<close> raises; when
  it left a result of another shape, \<open>unavailable\<close> is \<open>undefined\<close> and reading its length
  raises.  The caller catches both.
\<close>

definition fetchStep ::
  "PipelineEnv \<Rightarrow> PipelineState \<Rightarrow> (string + unit) \<times> PipelineState" where
  "fetchStep env s =
     (case step_result (steps (ctx s) ! 1) of
        Some (AvailabilityResult available unavailable) \<Rightarrow>
          if unavailable \<noteq> []
          then (case executeStep FetchResults 2 (fetchOperation env unavailable) 0 s of
                  (Inl e, s1) \<Rightarrow> (Inl e, s1)
                | (Inr fetched, s1) \<Rightarrow> (Inr (), s1))
          else (Inr (),
                updateStep 2
                  (\<lambda>st. st\<lparr>status := Completed,
                           step_result := Some (TextResult ''No components to fetch'')\<rparr>) s)
      | None \<Rightarrow> (Inl (cannotReadProperty ''unavailable''), s)
      | _ \<Rightarrow> (Inl (cannotReadProperty ''length''), s))"

text \<open>
  \<open>MultiAgentUIGenerator.generateUI\<close>: the five steps in order; a raised error ends the
  run with no components and \<open>success: false\<close>.
\<close>

definition generateUI :: "PipelineEnv \<Rightarrow> string \<Rightarrow> GenerationResult" where
  "generateUI env prompt0 =
     (case executeStep AnalysisResult 0 (analyzeOperation env prompt0) 0 (initialState prompt0) of
        (Inl e1, s1) \<Rightarrow> generationFailed s1
      | (Inr r1, s1) \<Rightarrow>
     (case executeStep (\<lambda>(available, unavailable). AvailabilityResult available unavailable) 1
             (availabilityOperation env) 0 s1 of
        (Inl e2, s2) \<Rightarrow> generationFailed s2
      | (Inr r2, s2) \<Rightarrow>
     (case fetchStep env s2 of
        (Inl e3, s3) \<Rightarrow> generationFailed s3
      | (Inr r3, s3) \<Rightarrow>
     (case executeStep TextResult 3 (generateOperation env) 0 s3 of
        (Inl e4, s4) \<Rightarrow> generationFailed s4
      | (Inr r4, s4) \<Rightarrow>
     (case executeStep ComponentsResult 4 (assembleOperation env) 0 s4 of
        (Inl e5, s5) \<Rightarrow> generationFailed s5
      | (Inr components0, s5) \<Rightarrow>
          \<lparr>components = components0,
           final = logger LogInfo ''MultiAgentUIGenerator''
                     ''UI generation completed successfully'' s5,
           success = True\<rparr>)))))"

section \<open>Context capture (lib/contextManager.ts)\<close>

text \<open>
  What the capture reads from a DOM element and from the event.  \<open>target_value\<close> is
  \<open>event.target.value\<close> when the target has a string value.
\<close>

datatype ElementKind =
  InputElement string string string
| ButtonElement string bool
| OtherElement

record Element =
  el_id :: string
  tagName :: string
  className :: string
  el_textContent :: "string option"
  el_kind :: ElementKind

record DomEvent =
  target_value :: "string option"

text \<open>
  The collaborators of one run of the fallback handler: the document
  (\<open>getElementById\<close>), the window, the clock, whether the persistent store raises on a
  read or a write, the recursive generator chain and the parser of its reply
  (\<open>JSON.parse(extractJson(raw))\<close> read at the result type).
\<close>

record GeneratorInput =
  gi_triggerElement :: TriggerElement
  gi_userInput :: string
  gi_siblingComponents :: string
  gi_parentComponent :: string
  gi_allComponents :: string

record RecursiveMetadata =
  md_componentId :: string
  md_reasoning :: string

record RecursiveResult =
  rr_ui :: "UIComponent option"
  rr_metadata :: "RecursiveMetadata option"

record RecursiveCacheEntry =
  entry_ui :: "UIComponent option"
  entry_metadata :: RecursiveMetadata
  createdAt :: string

record HandlerEnv =
  getElementById :: "string \<rightharpoonup> Element"
  innerWidth :: nat
  innerHeight :: nat
  navigatorUserAgent :: string
  toISOString :: string
  getItemFails :: bool
  setItemFails :: bool
  recursiveGeneratorChain :: "GeneratorInput \<Rightarrow> string + string"
  parseRecursive :: "string \<Rightarrow> string + RecursiveResult"

record World = Logged +
  store :: AppState
  storage :: "string \<rightharpoonup> RecursiveCacheEntry"
  defaultPrevented :: bool
  propagationStopped :: bool

definition extractElementProps :: "Element \<Rightarrow> Props" where
  "extractElementProps element =
     (if el_id element \<noteq> [] then [(''id'', JSString (el_id element))] else []) @
     (if className element \<noteq> [] then [(''className'', JSString (className element))] else []) @
     (case el_kind element of
        InputElement ty val ph \<Rightarrow>
          [(''type'', JSString ty), (''value'', JSString val), (''placeholder'', JSString ph)]
      | ButtonElement ty disabled \<Rightarrow> [(''type'', JSString ty), (''disabled'', JSBool disabled)]
      | OtherElement \<Rightarrow> [])"

definition findSiblingComponents :: "UIComponent list \<Rightarrow> string \<Rightarrow> UIComponent list" where
  "findSiblingComponents components0 targetId =
     take 3 (filter (\<lambda>comp. comp_id comp \<noteq> targetId) components0)"

fun childHasId :: "string \<Rightarrow> UIChild \<Rightarrow> bool" where
  "childHasId targetId (ChildComponent c) = (comp_id c = targetId)"
| "childHasId targetId (ChildPlaceholder p) = (ph_id p = targetId)"
| "childHasId targetId (ChildText s) = False"

definition findParentComponent :: "UIComponent list \<Rightarrow> string \<Rightarrow> UIComponent option" where
  "findParentComponent components0 targetId =
     find (\<lambda>comp. case comp_children comp of
                     None \<Rightarrow> False
                   | Some children \<Rightarrow> list_ex (childHasId targetId) children)
       components0"

definition buildComponentHierarchy :: "UIComponent list \<Rightarrow> string \<Rightarrow> UIComponent list" where
  "buildComponentHierarchy components0 targetId = take 5 components0"

definition calculateElementPosition :: "UIComponent list \<Rightarrow> string \<Rightarrow> Position" where
  "calculateElementPosition components0 targetId =
     \<lparr>pos_index =
        (case findIndex (\<lambda>comp. comp_id comp = targetId) components0 of
           None \<Rightarrow> 0
         | Some k \<Rightarrow> k),
      pos_depth = 1\<rparr>"

definition checkForErrors :: "UIComponent list \<Rightarrow> bool" where
  "checkForErrors components0 = False"

definition getRecentUserActions :: "string list" where
  "getRecentUserActions = []"

text \<open>\<open>ContextManager.captureFull\<close>.\<close>

definition captureFull ::
  "HandlerEnv \<Rightarrow> Element \<Rightarrow> UIComponent list \<Rightarrow> string option \<Rightarrow> Props option \<Rightarrow> FullContext" where
  "captureFull env element components0 input metadata0 =
     (let trigger = (if el_id element = [] then ''unknown'' else el_id element);
          elementType = toLowerCase (tagName element)
      in \<lparr>triggerId = trigger,
          triggerType = RecursiveGeneration,
          timestamp = toISOString env,
          triggerElement =
            \<lparr>elem_id = trigger, elem_type = elementType,
             elem_props = extractElementProps element,
             textContent =
               (case el_textContent element of
                  None \<Rightarrow> None
                | Some txt \<Rightarrow> if txt = [] then None else Some txt),
             position = calculateElementPosition components0 trigger\<rparr>,
          userInput = input,
          componentHierarchy = buildComponentHierarchy components0 trigger,
          siblingComponents = findSiblingComponents components0 trigger,
          parentComponent = findParentComponent components0 trigger,
          appState =
            \<lparr>allComponents = components0, componentCount = length components0,
             hasErrors = checkForErrors components0,
             lastUserActions = getRecentUserActions,
             app_metadata = (case metadata0 of None \<Rightarrow> [] | Some m \<Rightarrow> m)\<rparr>,
          environmentInfo =
            \<lparr>viewport_width = innerWidth env, viewport_height = innerHeight env,
             userAgent = navigatorUserAgent env, env_timestamp = toISOString env\<rparr>\<rparr>)"

text \<open>
  \<open>captureContext\<close>: the element is looked up in the document; when it is not there an
  error is raised.
\<close>

definition captureContext ::
  "HandlerEnv \<Rightarrow> string \<Rightarrow> DomEvent \<Rightarrow> World \<Rightarrow> (string + FullContext) \<times> World" where
  "captureContext env elementId event w =
     (let w1 = logger LogInfo ''ContextManager''
                 (''Capturing context for recursive event on element: '' @ elementId) w
      in case getElementById env elementId of
           None \<Rightarrow>
             (Inl (''Element with ID '' @ elementId @ '' not found for context capture.''),
              logger LogError ''ContextManager''
                (''Could not find element with ID: '' @ elementId) w1)
         | Some element \<Rightarrow>
             (Inr (captureFull env element (currentComponents (store w1)) (target_value event)
                     None),
              logger LogDebug ''ContextManager'' ''Capturing full context'' w1))"

section \<open>The recursive cache (services/cacheService.ts)\<close>

text \<open>
  \<open>getCachedRecursiveResult\<close>: a read of the persistent store that raises is logged and
  answered with \<open>null\<close>, like a missing entry.
\<close>

definition getCachedRecursiveResult ::
  "HandlerEnv \<Rightarrow> FullContext \<Rightarrow> World \<Rightarrow> RecursiveCacheEntry option \<times> World" where
  "getCachedRecursiveResult env context w =
     (let cacheKey = createCacheKey context in
      if getItemFails env
      then (None, logger LogError ''CacheService'' ''Failed to retrieve cached result'' w)
      else (case storage w cacheKey of
              Some cachedItem \<Rightarrow>
                (Some cachedItem,
                 logger LogInfo ''CacheService''
                   (''Found cached recursive result for key: '' @ cacheKey) w)
            | None \<Rightarrow>
                (None,
                 logger LogInfo ''CacheService''
                   (''No cache entry found for key: '' @ cacheKey) w)))"

definition cacheRecursiveResult ::
  "HandlerEnv \<Rightarrow> FullContext \<Rightarrow> UIComponent option \<times> RecursiveMetadata \<Rightarrow> World \<Rightarrow> World" where
  "cacheRecursiveResult env context result w =
     (let cacheKey = createCacheKey context;
          cacheEntry =
            \<lparr>entry_ui = fst result, entry_metadata = snd result, createdAt = toISOString env\<rparr>
      in if setItemFails env
         then logger LogError ''CacheService'' ''Failed to cache recursive result'' w
         else logger LogInfo ''CacheService''
                (''Successfully cached recursive result with key: '' @ cacheKey)
                (w\<lparr>storage := (storage w)(cacheKey \<mapsto> cacheEntry)\<rparr>))"

section \<open>Recursive generation (services/aiService.ts, services/uiOrchestrator.ts)\<close>

text \<open>\<open>JSON.stringify\<close> on an array of strings.\<close>

definition stringifyStrings :: "string list \<Rightarrow> string" where
  "stringifyStrings xs = ''['' @ join (map quoteJSONString xs) '','' @ '']''"

definition generatorInput :: "FullContext \<Rightarrow> GeneratorInput" where
  "generatorInput context =
     \<lparr>gi_triggerElement = triggerElement context,
      gi_userInput =
        (case userInput context of
           None \<Rightarrow> ''No direct input.''
         | Some v \<Rightarrow> if v = [] then ''No direct input.'' else v),
      gi_siblingComponents = stringifyStrings (map comp_type (siblingComponents context)),
      gi_parentComponent =
        (case parentComponent context of None \<Rightarrow> ''none'' | Some p \<Rightarrow> comp_type p),
      gi_allComponents = stringifyStrings (map comp_type (allComponents (appState context)))\<rparr>"

definition buildFallbackPrompt :: "FullContext \<Rightarrow> World \<Rightarrow> FullContext \<times> World" where
  "buildFallbackPrompt context w =
     (context, logger LogInfo ''AIService'' ''Building fallback prompt from context'' w)"

text \<open>\<open>generateRecursiveUI\<close>: a failure of the chain is logged and raised again.\<close>

definition generateRecursiveUI ::
  "HandlerEnv \<Rightarrow> FullContext \<Rightarrow> World \<Rightarrow> (string + RecursiveResult) \<times> World" where
  "generateRecursiveUI env prompt0 w =
     (case runChain ''recursiveGeneratorChain'' (parseRecursive env)
             ''Failed to generate recursive UI''
             (recursiveGeneratorChain env (generatorInput prompt0)) w of
        (Inl msg, w1) \<Rightarrow>
          (Inl msg, logger LogError ''AIService'' ''Recursive UI generation failed'' w1)
      | (Inr result, w1) \<Rightarrow> (Inr result, w1))"

text \<open>
  \<open>insertRecursiveUI\<close>: nothing is inserted when the component is missing or the target
  id is empty; otherwise the store inserts the component after the target.
\<close>

definition insertRecursiveUI :: "UIComponent option \<Rightarrow> string \<Rightarrow> World \<Rightarrow> World" where
  "insertRecursiveUI component targetElementId w =
     (case component of
        None \<Rightarrow>
          logger LogError ''UIOrchestrator''
            ''Invalid component or targetElementId for insertion.'' w
      | Some c \<Rightarrow>
          if targetElementId = []
          then logger LogError ''UIOrchestrator''
                 ''Invalid component or targetElementId for insertion.'' w
          else logger LogInfo ''UIOrchestrator''
                 (''Successfully inserted component '' @ comp_id c @ '' after '' @
                    targetElementId)
                 (w\<lparr>store := insertComponentAfter targetElementId c (store w)\<rparr>))"

section \<open>The generative fallback handler (lib/functionResolver.ts)\<close>

definition handlerFailed :: "World \<Rightarrow> World" where
  "handlerFailed w =
     logger LogError ''FunctionResolver'' ''Error during recursive UI generation'' w"

text \<open>
  The body of the closure that \<open>createRecursiveHandler(componentId, elementId, eventName)\<close>
  returns, run on an event.  Whatever is raised between the capture and the cache write is
  caught at the end and logged.  Reading \<open>metadata.componentId\<close> raises when the reply has
  no metadata.
\<close>

definition recursiveHandlerBody ::
  "HandlerEnv \<Rightarrow> string \<Rightarrow> string \<Rightarrow> string \<Rightarrow> DomEvent \<Rightarrow> World \<Rightarrow> World" where
  "recursiveHandlerBody env component0 elementId eventName event w =
     (let w0 = logger LogInfo ''FunctionResolver''
                 (''Recursive handler triggered for '' @ eventName @ '' on '' @ component0 @
                    '':'' @ elementId)
                 (w\<lparr>defaultPrevented := True, propagationStopped := True\<rparr>)
      in case captureContext env elementId event w0 of
           (Inl msg, w1) \<Rightarrow> handlerFailed w1
         | (Inr context, w1) \<Rightarrow>
             (case getCachedRecursiveResult env context
                     (logger LogDebug ''FunctionResolver''
                        ''Captured context for recursive generation'' w1) of
                (Some cachedResult, w2) \<Rightarrow>
                  insertRecursiveUI (entry_ui cachedResult) component0
                    (logger LogInfo ''FunctionResolver'' ''Using cached recursive UI'' w2)
              | (None, w2) \<Rightarrow>
                  (case buildFallbackPrompt context w2 of
                     (prompt0, w3) \<Rightarrow>
                       (case generateRecursiveUI env prompt0
                               (logger LogDebug ''FunctionResolver'' ''Built fallback prompt''
                                  w3) of
                          (Inl msg, w4) \<Rightarrow> handlerFailed w4
                        | (Inr result, w4) \<Rightarrow>
                            (case rr_metadata result of
                               None \<Rightarrow> handlerFailed w4
                             | Some metadata0 \<Rightarrow>
                                 logger LogDebug ''FunctionResolver''
                                   ''Cached recursive generation result''
                                   (cacheRecursiveResult env context (rr_ui result, metadata0)
                                      (logger LogDebug ''FunctionResolver''
                                         ''Inserted recursive UI into orchestrator''
                                         (insertRecursiveUI (rr_ui result) component0
                                            (logger LogInfo ''FunctionResolver''
                                               ''Received recursive UI from AI service''
                                               w4)))))))))"

section \<open>The patch service (services/patchService.ts)\<close>

record PatchRequest =
  req_componentId :: string
  req_error :: string

text \<open>
  A run of \<open>processQueue\<close> that is suspended at \<open>await attemptFix(...)\<close>: the request it
  took and the component it found.
\<close>

record SuspendedFix =
  sus_request :: PatchRequest
  sus_component :: UIChild

record PatchServiceState = Logged +
  patchQueue :: "PatchRequest list"
  isProcessing :: bool
  awaiting :: "SuspendedFix list"
  appStore :: AppState

definition operationName :: "string \<Rightarrow> string" where
  "operationName componentId =
     ''PatchService.processQueue for '' @ [CHR 0x27] @ componentId @ [CHR 0x27]"

text \<open>
  \<open>processQueue\<close> up to its first suspension.  Nothing happens while a fix is being
  processed or the queue is empty.  Otherwise the head of the queue is taken; when its
  component is not in the store the request is dropped and the next one is looked at, else
  the run suspends on the fix attempt.
\<close>

function processQueue :: "PatchServiceState \<Rightarrow> PatchServiceState" where
  "processQueue s =
     (if isProcessing s \<or> patchQueue s = [] then s
      else
        (let request = hd (patchQueue s);
             componentId = req_componentId request;
             s1 = logEntry (PatchProcessing componentId (req_error request))
                    (logEntry (OperationStarted ''PatchService'' (operationName componentId))
                       (s\<lparr>isProcessing := True, patchQueue := tl (patchQueue s)\<rparr>))
         in case findComponent (map ChildComponent (currentComponents (appStore s1)))
                   componentId of
              None \<Rightarrow>
                processQueue
                  (logEntry (OperationEnded ''PatchService'' (operationName componentId) False)
                     ((logger LogError ''PatchService'' ''Component not found in state.'' s1)
                        \<lparr>isProcessing := False\<rparr>))
            | Some componentToFix \<Rightarrow>
                (logger LogInfo ''PatchService'' ''Calling ErrorPatchService.attemptFix'' s1)
                  \<lparr>awaiting :=
                     awaiting s1 @ [\<lparr>sus_request = request, sus_component = componentToFix\<rparr>]\<rparr>))"
  by pat_completeness auto
termination
proof (relation "measure (\<lambda>s. length (patchQueue s))")
  show "wf (measure (\<lambda>s. length (patchQueue s)))"
    by simp
next
  fix s :: PatchServiceState and request componentId0 s1
  assume "\<not> (isProcessing s \<or> patchQueue s = [])"
    and "request = hd (patchQueue s)"
    and "componentId0 = req_componentId request"
    and "s1 = logEntry (PatchProcessing componentId0 (req_error request))
           (logEntry (OperationStarted ''PatchService'' (operationName componentId0))
              (s\<lparr>isProcessing := True, patchQueue := tl (patchQueue s)\<rparr>))"
  then show "(logEntry (OperationEnded ''PatchService'' (operationName componentId0) False)
                ((logger LogError ''PatchService'' ''Component not found in state.'' s1)
                   \<lparr>isProcessing := False\<rparr>), s)
             \<in> measure (\<lambda>s. length (patchQueue s))"
    by (cases "patchQueue s") (simp_all add: logEntry_def logger_def)
qed

declare processQueue.simps [simp del]

definition queuePatch :: "string \<Rightarrow> string \<Rightarrow> PatchServiceState \<Rightarrow> PatchServiceState" where
  "queuePatch componentId err s =
     processQueue
       ((logger LogInfo ''PatchService'' ''Queueing patch request'' s)
          \<lparr>patchQueue := patchQueue s @ [\<lparr>req_componentId = componentId, req_error = err\<rparr>]\<rparr>)"

text \<open>
  The rest of \<open>processQueue\<close>, run when the fix attempt of the \<open>k\<close>-th suspended run
  settles with \<open>fixedComponentString\<close> (\<open>None\<close> is \<open>null\<close>, and the empty string is
  falsy as well).  \<open>jsonParse\<close> is \<open>JSON.parse\<close> read as a component.  At the end the
  processing flag is cleared and the queue is looked at again.
\<close>

definition afterFix ::
  "(string \<Rightarrow> string + ComponentUpdates) \<Rightarrow> nat \<Rightarrow> string option \<Rightarrow> PatchServiceState \<Rightarrow>
     PatchServiceState" where
  "afterFix jsonParse k fixedComponentString s =
     (if k < length (awaiting s)
      then
        (let componentId = req_componentId (sus_request (awaiting s ! k));
             s1 = s\<lparr>awaiting := take k (awaiting s) @ drop (Suc k) (awaiting s)\<rparr>;
             patched = (fixedComponentString \<noteq> None \<and> fixedComponentString \<noteq> Some []);
             s2 = (if patched
                   then (case jsonParse (the fixedComponentString) of
                           Inr patchedComponent \<Rightarrow>
                             logger LogInfo ''PatchService'' ''Component updated successfully''
                               (s1\<lparr>appStore :=
                                     updateComponent componentId patchedComponent (appStore s1)\<rparr>)
                         | Inl msg \<Rightarrow>
                             logger LogError ''PatchService''
                               ''Failed to parse patched component JSON'' s1)
                   else logger LogError ''PatchService'' ''No patch generated for component'' s1)
         in processQueue
              ((logEntry (OperationEnded ''PatchService'' (operationName componentId) patched)
                  s2)\<lparr>isProcessing := False\<rparr>))
      else s)"

text \<open>
  What the event loop delivers to the service: a call of \<open>queuePatch\<close>, the settling of a
  suspended fix attempt, or a change of the component list by another writer of the store.
  A settling that names no suspended run delivers nothing.
\<close>

datatype PatchEvent =
  QueuePatch string string
| FixSettled nat "string option"
| StoreReplaced "UIComponent list"

fun patchStep ::
  "(string \<Rightarrow> string + ComponentUpdates) \<Rightarrow> PatchServiceState \<Rightarrow> PatchEvent \<Rightarrow> PatchServiceState" where
  "patchStep jsonParse s (QueuePatch componentId err) = queuePatch componentId err s"
| "patchStep jsonParse s (FixSettled k fixed) = afterFix jsonParse k fixed s"
| "patchStep jsonParse s (StoreReplaced cs) =
     s\<lparr>appStore := (appStore s)\<lparr>currentComponents := cs\<rparr>\<rparr>"

definition initialPatchService :: "UIComponent list \<Rightarrow> PatchServiceState" where
  "initialPatchService cs =
     \<lparr>logs = [Log LogInfo ''PatchService'' ''Service initialized''],
      patchQueue = [], isProcessing = False, awaiting = [],
      appStore = \<lparr>currentComponents = cs, isGenerating = False, error = None\<rparr>\<rparr>"

definition runPatchService ::
  "(string \<Rightarrow> string + ComponentUpdates) \<Rightarrow> UIComponent list \<Rightarrow> PatchEvent list \<Rightarrow>
     PatchServiceState" where
  "runPatchService jsonParse cs events = foldl (patchStep jsonParse) (initialPatchService cs) events"

section \<open>Notions used in the pipeline properties\<close>

text \<open>
  The number of attempts of a step is the number of start entries that the retry wrapper
  logged for its index.
\<close>

fun isStart :: "nat \<Rightarrow> LogEntry \<Rightarrow> bool" where
  "isStart i (StepStarted j r) = (i = j)"
| "isStart i other = False"

definition attempts :: "nat \<Rightarrow> LogEntry list \<Rightarrow> nat" where
  "attempts i entries = length (filter (isStart i) entries)"

text \<open>
  An operation is quiet when it leaves the step list alone and logs no start entry; every
  operation of the pipeline is.
\<close>

definition quiet :: "(PipelineState \<Rightarrow> (string + 'r) \<times> PipelineState) \<Rightarrow> bool" where
  "quiet operation \<longleftrightarrow>
     (\<forall>s. steps (ctx (snd (operation s))) = steps (ctx s) \<and>
          (\<forall>i. attempts i (logs (snd (operation s))) = attempts i (logs s)))"

text \<open>
  \<open>stageInv k\<close>: the steps before \<open>k\<close> are completed, the others are pending and have not
  been attempted.  \<open>failedAt k\<close>: step \<open>k\<close> failed after three attempts, the later ones are
  pending.
\<close>

definition stageInv :: "nat \<Rightarrow> PipelineState \<Rightarrow> bool" where
  "stageInv k s \<longleftrightarrow>
     length (steps (ctx s)) = 5 \<and>
     (\<forall>j. j < k \<longrightarrow> status (steps (ctx s) ! j) = Completed) \<and>
     (\<forall>j. k \<le> j \<and> j < 5 \<longrightarrow> status (steps (ctx s) ! j) = Pending) \<and>
     (\<forall>j. attempts j (logs s) \<le> 3) \<and>
     (\<forall>j. k \<le> j \<longrightarrow> attempts j (logs s) = 0)"

definition failedAt :: "nat \<Rightarrow> PipelineState \<Rightarrow> bool" where
  "failedAt k s \<longleftrightarrow>
     length (steps (ctx s)) = 5 \<and>
     (\<forall>j. j < k \<longrightarrow> status (steps (ctx s) ! j) = Completed) \<and>
     status (steps (ctx s) ! k) = Failed \<and>
     step_error (steps (ctx s) ! k) \<noteq> None \<and>
     (\<forall>j. k < j \<and> j < 5 \<longrightarrow> status (steps (ctx s) ! j) = Pending) \<and>
     (\<forall>j. k < j \<longrightarrow> attempts j (logs s) = 0) \<and>
     (\<forall>j. attempts j (logs s) \<le> 3) \<and>
     attempts k (logs s) = 3"

definition boundedRetryOutcome :: "GenerationResult \<Rightarrow> bool" where
  "boundedRetryOutcome r \<longleftrightarrow>
     (\<forall>i. attempts i (logs (final r)) \<le> 3) \<and>
     (\<forall>i. i < 5 \<and> 0 < attempts i (logs (final r)) \<longrightarrow>
        status (steps (ctx (final r)) ! i) = Completed \<or>
        status (steps (ctx (final r)) ! i) = Failed) \<and>
     (\<forall>i. i < 5 \<and> status (steps (ctx (final r)) ! i) = Failed \<longrightarrow>
        step_error (steps (ctx (final r)) ! i) \<noteq> None \<and>
        attempts i (logs (final r)) = 3 \<and>
        (\<forall>j. i < j \<and> j < 5 \<longrightarrow>
           status (steps (ctx (final r)) ! j) = Pending \<and> attempts j (logs (final r)) = 0) \<and>
        components r = [] \<and> \<not> success r)"

section \<open>Notions used in the handler properties\<close>

text \<open>The entry that the handler's \<open>catch\<close> block logs.\<close>

definition handlerErrorEntry :: LogEntry where
  "handlerErrorEntry =
     Log LogError ''FunctionResolver'' ''Error during recursive UI generation''"

text \<open>
  The fragment that a run of the handler has in hand for a captured context: the cached
  fragment when the cache probe finds an entry; otherwise the generated fragment, when
  generation returns a reply that has metadata; otherwise none.
\<close>

definition handlerFragment :: "HandlerEnv \<Rightarrow> FullContext \<Rightarrow> World \<Rightarrow> UIComponent option" where
  "handlerFragment env context w =
     (case fst (getCachedRecursiveResult env context w) of
        Some cachedResult \<Rightarrow> entry_ui cachedResult
      | None \<Rightarrow>
          (case fst (generateRecursiveUI env context w) of
             Inl msg \<Rightarrow> None
           | Inr result \<Rightarrow>
               (case rr_metadata result of
                  None \<Rightarrow> None
                | Some metadata0 \<Rightarrow> rr_ui result)))"

section \<open>Notions used in the patch service properties\<close>

text \<open>The requests that a list of events enqueues, in order.\<close>

fun enqueued :: "PatchEvent list \<Rightarrow> PatchRequest list" where
  "enqueued [] = []"
| "enqueued (QueuePatch componentId err # events) =
     \<lparr>req_componentId = componentId, req_error = err\<rparr> # enqueued events"
| "enqueued (other # events) = enqueued events"

text \<open>The requests whose processing the log announces, in order.\<close>

fun startedRequests :: "LogEntry list \<Rightarrow> PatchRequest list" where
  "startedRequests [] = []"
| "startedRequests (PatchProcessing componentId err # entries) =
     \<lparr>req_componentId = componentId, req_error = err\<rparr> # startedRequests entries"
| "startedRequests (other # entries) = startedRequests entries"

text \<open>
  Reading the operation entries of a log from the left, starting with the operation
  \<open>current\<close> in flight: a start is allowed only when nothing is in flight, an end only for
  the operation in flight.  The result is the operation in flight at the end, or \<open>None\<close>
  when the log breaks the rule.
\<close>

fun inFlightAfter :: "string option \<Rightarrow> LogEntry list \<Rightarrow> string option option" where
  "inFlightAfter current [] = Some current"
| "inFlightAfter current (OperationStarted m name # entries) =
     (if current = None then inFlightAfter (Some name) entries else None)"
| "inFlightAfter current (OperationEnded m name ok # entries) =
     (if current = Some name then inFlightAfter None entries else None)"
| "inFlightAfter current (other # entries) = inFlightAfter current entries"

definition currentOperation :: "PatchServiceState \<Rightarrow> string option" where
  "currentOperation s =
     (case awaiting s of
        [] \<Rightarrow> None
      | p # ps \<Rightarrow> Some (operationName (req_componentId (sus_request p))))"

definition patchInv :: "PatchRequest list \<Rightarrow> PatchServiceState \<Rightarrow> bool" where
  "patchInv requests s \<longleftrightarrow>
     startedRequests (logs s) @ patchQueue s = requests \<and>
     length (awaiting s) \<le> 1 \<and>
     (isProcessing s \<longleftrightarrow> awaiting s \<noteq> []) \<and>
     inFlightAfter None (logs s) = Some (currentOperation s)"

section \<open>Example data\<close>

definition searchBar :: UIComponent where
  "searchBar =
     UIComponent ''search-1'' ''search-bar'' [(''placeholder'', JSString ''Start exploring'')]
       None None"

definition card1 :: UIComponent where
  "card1 = UIComponent ''card-1'' ''card'' [] None None"

definition ph1 :: UIComponent where
  "ph1 = UIComponent ''ph-1'' ''placeholder'' [] None None"

definition panel :: UIComponent where
  "panel =
     UIComponent ''panel'' ''div'' [] (Some [ChildText ''hello'', ChildComponent ph1]) None"

definition sibA :: UIComponent where
  "sibA = UIComponent ''a'' ''card'' [] None None"

definition sibB :: UIComponent where
  "sibB = UIComponent ''b'' ''card'' [] None None"

definition exampleState :: AppState where
  "exampleState = \<lparr>currentComponents = [searchBar, card1], isGenerating = False, error = None\<rparr>"


definition exampleContext :: "string \<Rightarrow> nat \<Rightarrow> UIComponent list \<Rightarrow> FullContext" where
  "exampleContext time width siblings =
     \<lparr>triggerId = ''btn-1'', triggerType = RecursiveGeneration, timestamp = time,
      triggerElement = \<lparr>elem_id = ''btn-1'', elem_type = ''button'', elem_props = [],
        textContent = None, position = \<lparr>pos_index = 0, pos_depth = 1\<rparr>\<rparr>,
      userInput = None, componentHierarchy = [], siblingComponents = siblings,
      parentComponent = None,
      appState = \<lparr>allComponents = [], componentCount = 0, hasErrors = False,
        lastUserActions = [], app_metadata = []\<rparr>,
      environmentInfo = \<lparr>viewport_width = width, viewport_height = 720,
        userAgent = ''test-agent'', env_timestamp = time\<rparr>\<rparr>"

definition unparseableReply :: string where
  "unparseableReply = ''I can'' @ [CHR 0x27] @ ''t do that.''"

definition exampleAnalysis :: RawAnalysis where
  "exampleAnalysis =
     \<lparr>raw_requiredComponents = Some [''button'', ''Card'', ''sparkline''], raw_customComponents = Some [],
      raw_compositeComponents = Some [], raw_reasoning = Some ''A card with a button.''\<rparr>"

definition failingEnv :: PipelineEnv where
  "failingEnv =
     \<lparr>analyzerChain = (\<lambda>k. Inr ''{}''),
      codeGeneratorChain = (\<lambda>k. Inr unparseableReply),
      parseAnalysis = (\<lambda>raw. Inr exampleAnalysis),
      parseComponents =
        (\<lambda>raw. if raw = ''[]'' then Inr [] else Inl ''Unexpected token I in JSON at position 0''),
      stringifyComponents = (\<lambda>cs. ''[]''),
      parseGeneratedCode =
        (\<lambda>raw. if raw = ''[]'' then Inr [] else Inl ''Unexpected token I in JSON at position 0''),
      shadcnCache = [''button'' \<mapsto> True, ''card'' \<mapsto> True],
      dateNow = 1700000000000,
      isoNow = ''2023-11-14T22:13:20.000Z''\<rparr>"

definition buttonElement :: Element where
  "buttonElement =
     \<lparr>el_id = ''btn-1'', tagName = ''BUTTON'', className = ''primary'',
      el_textContent = Some ''More'', el_kind = ButtonElement ''button'' False\<rparr>"

definition clickEvent :: DomEvent where
  "clickEvent = \<lparr>target_value = None\<rparr>"

definition world0 :: World where
  "world0 =
     \<lparr>logs = [], store = \<lparr>currentComponents = [searchBar], isGenerating = False, error = None\<rparr>,
      storage = Map.empty, defaultPrevented = False, propagationStopped = False\<rparr>"

definition cardReply :: RecursiveResult where
  "cardReply =
     \<lparr>rr_ui = Some card1,
      rr_metadata = Some \<lparr>md_componentId = ''card-1'', md_reasoning = ''Show the details.''\<rparr>\<rparr>"

definition removedEnv :: HandlerEnv where
  "removedEnv =
     \<lparr>getElementById = Map.empty, innerWidth = 1280, innerHeight = 720,
      navigatorUserAgent = ''test-agent'', toISOString = ''2025-01-01T00:00:00.000Z'',
      getItemFails = False, setItemFails = False,
      recursiveGeneratorChain = (\<lambda>input. Inr ''{}''),
      parseRecursive = (\<lambda>raw. Inr cardReply)\<rparr>"

definition liveEnv :: HandlerEnv where
  "liveEnv =
     \<lparr>getElementById = [''btn-1'' \<mapsto> buttonElement], innerWidth = 1280, innerHeight = 720,
      navigatorUserAgent = ''test-agent'', toISOString = ''2025-01-01T00:00:00.000Z'',
      getItemFails = False, setItemFails = False,
      recursiveGeneratorChain = (\<lambda>input. Inr ''{}''),
      parseRecursive = (\<lambda>raw. Inr cardReply)\<rparr>"

definition cachedWorld :: World where
  "cachedWorld =
     world0\<lparr>storage :=
       [createCacheKey (captureFull liveEnv buttonElement [searchBar] None None) \<mapsto>
          \<lparr>entry_ui = Some sibB,
           entry_metadata = \<lparr>md_componentId = ''b'', md_reasoning = ''Cached earlier.''\<rparr>,
           createdAt = ''2024-12-31T00:00:00.000Z''\<rparr>]\<rparr>"

definition twoCardWorld :: World where
  "twoCardWorld =
     world0\<lparr>store := \<lparr>currentComponents = [searchBar, sibA], isGenerating = False, error = None\<rparr>\<rparr>"

definition probeFailEnv :: HandlerEnv where
  "probeFailEnv = liveEnv\<lparr>getItemFails := True\<rparr>"

definition failedGenerationEnv :: HandlerEnv where
  "failedGenerationEnv = liveEnv\<lparr>recursiveGeneratorChain := (\<lambda>input. Inl ''network down'')\<rparr>"

definition noParse :: "string \<Rightarrow> string + ComponentUpdates" where
  "noParse raw = Inl ''Unexpected end of JSON input''"

definition exampleEvents :: "PatchEvent list" where
  "exampleEvents =
     [QueuePatch ''card-1'' ''boom'', QueuePatch ''missing'' ''crash'',
      QueuePatch ''search-1'' ''bang'', FixSettled 0 None]"

section \<open>Properties of the store operations\<close>

lemma replacePlaceholder_absent:
  "X \<notin> comp_id ` set T \<Longrightarrow> replacePlaceholder T X R = T"
  by (induction T) (auto simp: replacePlaceholder_def)

lemma replacePlaceholder_append:
  "replacePlaceholder (xs @ ys) X R = replacePlaceholder xs X R @ replacePlaceholder ys X R"
  by (simp add: replacePlaceholder_def)

lemma replacePlaceholder_Cons:
  "replacePlaceholder (x # xs) X R =
     (if comp_id x = X then R else [x]) @ replacePlaceholder xs X R"
  by (simp add: replacePlaceholder_def)

lemma findIndex_None: "findIndex P xs = None \<longleftrightarrow> (\<forall>x\<in>set xs. \<not> P x)"
  by (induction xs) (auto split: option.splits)



text \<open>
  Claim C3, as the code has it.  When no top-level component has the target id, the
  replacement step returns the list unchanged (the replacement nodes are not appended), and
  so does \<open>generatePlaceholder\<close> on a successful generation; \<open>insertComponentAfter\<close> is
  the operation that appends the new component at the end of the root list.  Neither touches
  another field of the store, so nothing records that the target was missing.
\<close>

theorem absent_target_degradation:
  assumes "X \<notin> comp_id ` set (currentComponents s)"
  shows "replacePlaceholder (currentComponents s) X R = currentComponents s \<and>
         (ph_id p = X \<longrightarrow>
            generatePlaceholder p (Inr (R, True)) s = s\<lparr>isGenerating := False, error := None\<rparr>) \<and>
         insertComponentAfter X c s = s\<lparr>currentComponents := currentComponents s @ [c]\<rparr>"
proof -
  have "findIndex (\<lambda>c. comp_id c = X) (currentComponents s) = None"
    using assms by (auto simp: findIndex_None)
  then show ?thesis
    using assms
    by (simp add: replacePlaceholder_absent generatePlaceholder_def insertComponentAfter_def
        Let_def)
qed

theorem absent_target_degradation_witness:
  "replacePlaceholder [searchBar] ''nonexistent-id'' [card1] = [searchBar] \<and>
   currentComponents (insertComponentAfter ''nonexistent-id'' sibA exampleState) =
     [searchBar, card1, sibA]"
  using absent_target_degradation [of "''nonexistent-id''" exampleState "[card1]" undefined sibA]
    absent_target_degradation
      [of "''nonexistent-id''" "exampleState\<lparr>currentComponents := [searchBar]\<rparr>" "[card1]"
        undefined sibA]
  by (simp add: exampleState_def searchBar_def card1_def)

text \<open>
  Claim C3 as stated fails: replacing an id that the tree does not contain does not append
  the replacement at the root.
\<close>

theorem replace_absent_counterexample:
  "findComponent (map ChildComponent [searchBar]) ''nonexistent-id'' = None \<and>
   replacePlaceholder [searchBar] ''nonexistent-id'' [card1] \<noteq> [searchBar] @ [card1] \<and>
   currentComponents
     (generatePlaceholder (UIPlaceholder ''nonexistent-id'' ''more'' card1 None)
        (Inr ([card1], True)) (exampleState\<lparr>currentComponents := [searchBar]\<rparr>))
     = [searchBar]"
  by (simp add: replacePlaceholder_def generatePlaceholder_def exampleState_def searchBar_def
      card1_def)

text \<open>
  Claim C4, as the code has it.  When exactly one top-level component has the id \<open>X\<close>, the
  replacement puts the nodes of \<open>R\<close> at its position and leaves the components before and
  after it as they are, in their order; \<open>X\<close> is then absent from the top level unless a node
  of \<open>R\<close> carries it.
\<close>

theorem replace_top_level:
  assumes "comp_id x = X" and "X \<notin> comp_id ` set pre" and "X \<notin> comp_id ` set post"
  shows "replacePlaceholder (pre @ x # post) X R = pre @ R @ post \<and>
         (X \<notin> comp_id ` set R \<longrightarrow>
            X \<notin> comp_id ` set (replacePlaceholder (pre @ x # post) X R))"
proof -
  have "replacePlaceholder (pre @ x # post) X R = pre @ R @ post"
    using assms
    by (simp add: replacePlaceholder_append replacePlaceholder_Cons replacePlaceholder_absent)
  then show ?thesis
    using assms by auto
qed

theorem replace_top_level_witness:
  "replacePlaceholder [ph1] ''ph-1'' [card1] = [card1] \<and>
   replacePlaceholder [searchBar, ph1, sibA] ''ph-1'' [card1, sibB] =
     [searchBar, card1, sibB, sibA]"
  using replace_top_level [of ph1 "''ph-1''" "[]" "[]" "[card1]"]
    replace_top_level [of ph1 "''ph-1''" "[searchBar]" "[sibA]" "[card1, sibB]"]
  by (simp add: ph1_def searchBar_def sibA_def)

text \<open>
  Claim C4 as stated fails for a node below the top level: the tree contains the id, the
  replacement returns the tree unchanged and the id is still there.
\<close>

theorem replace_nested_counterexample:
  "findComponent (map ChildComponent [panel]) ''ph-1'' = Some (ChildComponent ph1) \<and>
   replacePlaceholder [panel] ''ph-1'' [card1] = [panel] \<and>
   findComponent (map ChildComponent (replacePlaceholder [panel] ''ph-1'' [card1])) ''ph-1''
     \<noteq> None"
  by (simp add: replacePlaceholder_def panel_def card1_def ph1_def)

section \<open>Properties of the cache key\<close>

lemmas key_defs = createCacheKey_def keyParts_def stringifyObject_def join_def
  quoteJSONString_def escapeJSONChar_def toInt32_def orEmpty_def CACHE_PREFIX_def

lemma createCacheKey_ab:
  "createCacheKey (exampleContext ''2025-01-01T00:00:00.000Z'' 1280 [sibA, sibB]) =
     ''recursive-cache-1678999761''"
  by (simp add: key_defs exampleContext_def sibA_def sibB_def Let_def showNat.simps)

lemma createCacheKey_ba:
  "createCacheKey (exampleContext ''2025-01-01T00:00:00.000Z'' 1280 [sibB, sibA]) =
     ''recursive-cache-1679922321''"
  by (simp add: key_defs exampleContext_def sibA_def sibB_def Let_def showNat.simps)

text \<open>
  Claim C1, as the code has it.  Two contexts that agree on the trigger element's id and
  type, on the user input (absent read as empty), on the parent's id (absent read as empty)
  and on the ids of the captured siblings in their captured order derive the same key,
  whatever their timestamps, viewport and other fields are.
\<close>

theorem createCacheKey_deterministic:
  assumes "elem_id (triggerElement c1) = elem_id (triggerElement c2)"
    and "elem_type (triggerElement c1) = elem_type (triggerElement c2)"
    and "orEmpty (userInput c1) = orEmpty (userInput c2)"
    and "orEmpty (map_option comp_id (parentComponent c1)) =
         orEmpty (map_option comp_id (parentComponent c2))"
    and "map comp_id (siblingComponents c1) = map comp_id (siblingComponents c2)"
  shows "createCacheKey c1 = createCacheKey c2"
  using assms by (simp add: createCacheKey_def keyParts_def)

theorem createCacheKey_deterministic_witness:
  "createCacheKey (exampleContext ''2025-01-01T00:00:00.000Z'' 1280 [sibA, sibB]) =
   createCacheKey
     ((exampleContext ''2026-06-30T12:00:00.000Z'' 390 [sibA, sibB])\<lparr>userInput := Some []\<rparr>)"
  using createCacheKey_deterministic
    [of "exampleContext ''2025-01-01T00:00:00.000Z'' 1280 [sibA, sibB]"
        "(exampleContext ''2026-06-30T12:00:00.000Z'' 390 [sibA, sibB])\<lparr>userInput := Some []\<rparr>"]
  by (simp add: exampleContext_def orEmpty_def)

text \<open>
  Claim C1 as stated fails: two contexts that agree on the whole projection, with the same
  set of sibling ids captured in a different order, derive different keys.
\<close>

theorem cache_key_sibling_order_counterexample:
  "elem_id (triggerElement (exampleContext ''2025-01-01T00:00:00.000Z'' 1280 [sibA, sibB])) =
     elem_id (triggerElement (exampleContext ''2025-01-01T00:00:00.000Z'' 1280 [sibB, sibA])) \<and>
   elem_type (triggerElement (exampleContext ''2025-01-01T00:00:00.000Z'' 1280 [sibA, sibB])) =
     elem_type (triggerElement (exampleContext ''2025-01-01T00:00:00.000Z'' 1280 [sibB, sibA])) \<and>
   orEmpty (userInput (exampleContext ''2025-01-01T00:00:00.000Z'' 1280 [sibA, sibB])) =
     orEmpty (userInput (exampleContext ''2025-01-01T00:00:00.000Z'' 1280 [sibB, sibA])) \<and>
   orEmpty (map_option comp_id
       (parentComponent (exampleContext ''2025-01-01T00:00:00.000Z'' 1280 [sibA, sibB]))) =
     orEmpty (map_option comp_id
       (parentComponent (exampleContext ''2025-01-01T00:00:00.000Z'' 1280 [sibB, sibA]))) \<and>
   set (map comp_id
       (siblingComponents (exampleContext ''2025-01-01T00:00:00.000Z'' 1280 [sibA, sibB]))) =
     set (map comp_id
       (siblingComponents (exampleContext ''2025-01-01T00:00:00.000Z'' 1280 [sibB, sibA]))) \<and>
   createCacheKey (exampleContext ''2025-01-01T00:00:00.000Z'' 1280 [sibA, sibB]) \<noteq>
     createCacheKey (exampleContext ''2025-01-01T00:00:00.000Z'' 1280 [sibB, sibA])"
proof -
  have "set (map comp_id [sibA, sibB]) = set (map comp_id [sibB, sibA])"
    by auto
  then show ?thesis
    by (simp add: createCacheKey_ab createCacheKey_ba) (simp add: exampleContext_def)
qed

section \<open>Properties of the event resolution chain\<close>

text \<open>
  Claim C6.  \<open>resolveEventHandler\<close> returns the handler that the precedence of the
  specification selects (the declared value itself when it is callable, else the registered
  handler when it is a string that names a registry entry, else the generative fallback bound
  to the component id, the element id and the event name) for every declared value except a
  string that names no registry entry but a member that the registry object inherits from
  \<open>Object.prototype\<close>.  For such a string the source returns the inherited member, which is
  neither a registry entry nor the fallback, and for \<open>__proto__\<close> is not callable.
\<close>

theorem resolveEventHandler_inherited_names:
  "((\<forall>name. propValue = PropString name \<longrightarrow>
        registry name \<noteq> None \<or> objectPrototypeGet name = None) \<longrightarrow>
      resolveEventHandler registry propName propValue componentId elementId =
        Callable (resolveByPrecedence registry propName propValue componentId elementId)) \<and>
   (\<forall>name inherited.
      registry name = None \<and> objectPrototypeGet name = Some inherited \<longrightarrow>
      resolveEventHandler registry propName (PropString name) componentId elementId = inherited \<and>
      inherited \<noteq>
        Callable (resolveByPrecedence registry propName (PropString name) componentId elementId) \<and>
      (name = ''__proto__'' \<longrightarrow> \<not> callable inherited))"
proof (intro conjI impI allI)
  assume "\<forall>name. propValue = PropString name \<longrightarrow>
      registry name \<noteq> None \<or> objectPrototypeGet name = None"
  then show "resolveEventHandler registry propName propValue componentId elementId =
      Callable (resolveByPrecedence registry propName propValue componentId elementId)"
    by (cases propValue)
      (auto simp: resolveEventHandler_def resolveByPrecedence_def createRecursiveHandler_def
        registryGet_def split: option.splits)
next
  fix name inherited
  assume a: "registry name = None \<and> objectPrototypeGet name = Some inherited"
  show "resolveEventHandler registry propName (PropString name) componentId elementId = inherited"
    using a by (simp add: resolveEventHandler_def registryGet_def)
  show "inherited \<noteq>
      Callable (resolveByPrecedence registry propName (PropString name) componentId elementId)"
    using a by (auto simp: resolveByPrecedence_def objectPrototypeGet_def split: if_splits)
  show "name = ''__proto__'' \<Longrightarrow> \<not> callable inherited"
    using a by (simp add: objectPrototypeGet_def)
qed

theorem resolveEventHandler_inherited_names_witness:
  "resolveEventHandler functionRegistry ''onClick'' (PropFunction (ProvidedFunction 7))
     ''card-1'' ''btn-1'' = Callable (ProvidedFunction 7) \<and>
   resolveEventHandler functionRegistry ''onClick'' (PropString ''logClick'')
     ''card-1'' ''btn-1'' = Callable (RegistryFunction ''logClick'') \<and>
   resolveEventHandler functionRegistry ''onClick'' (PropString ''showDetails'')
     ''card-1'' ''btn-1'' = Callable (RecursiveHandler ''card-1'' ''btn-1'' ''onClick'') \<and>
   resolveEventHandler functionRegistry ''onClick'' PropUndefined
     ''card-1'' ''btn-1'' = Callable (RecursiveHandler ''card-1'' ''btn-1'' ''onClick'') \<and>
   resolveEventHandler functionRegistry ''onClick'' (PropString ''toString'')
     ''card-1'' ''btn-1'' = Callable (InheritedFunction ''toString'') \<and>
   resolveEventHandler functionRegistry ''onClick'' (PropString ''__proto__'')
     ''card-1'' ''btn-1'' = ObjectPrototype \<and>
   \<not> callable (resolveEventHandler functionRegistry ''onClick'' (PropString ''__proto__'')
     ''card-1'' ''btn-1'') \<and>
   resolveByPrecedence functionRegistry ''onClick'' (PropString ''__proto__'')
     ''card-1'' ''btn-1'' = RecursiveHandler ''card-1'' ''btn-1'' ''onClick''"
proof -
  note agree = resolveEventHandler_inherited_names [THEN conjunct1, rule_format]
  note differ = resolveEventHandler_inherited_names [THEN conjunct2, rule_format]
  have own: "functionRegistry ''logClick'' \<noteq> None"
    by (simp add: functionRegistry_def)
  have absent: "functionRegistry ''toString'' = None" "functionRegistry ''__proto__'' = None"
    by (simp_all add: functionRegistry_def)
  have inherited: "objectPrototypeGet ''showDetails'' = None"
    "objectPrototypeGet ''toString'' = Some (Callable (InheritedFunction ''toString''))"
    "objectPrototypeGet ''__proto__'' = Some ObjectPrototype"
    by (simp_all add: objectPrototypeGet_def objectPrototypeMethods_def)
  have "resolveEventHandler functionRegistry ''onClick'' (PropFunction (ProvidedFunction 7))
      ''card-1'' ''btn-1'' = Callable (ProvidedFunction 7)"
    using agree [of "PropFunction (ProvidedFunction 7)" functionRegistry "''onClick''"
        "''card-1''" "''btn-1''"]
    by (simp add: resolveByPrecedence_def)
  moreover have "resolveEventHandler functionRegistry ''onClick'' (PropString ''logClick'')
      ''card-1'' ''btn-1'' = Callable (RegistryFunction ''logClick'')"
    using agree [of "PropString ''logClick''" functionRegistry "''onClick''" "''card-1''"
        "''btn-1''"] own
    by (simp add: resolveByPrecedence_def functionRegistry_def)
  moreover have "resolveEventHandler functionRegistry ''onClick'' (PropString ''showDetails'')
      ''card-1'' ''btn-1'' = Callable (RecursiveHandler ''card-1'' ''btn-1'' ''onClick'')"
    using agree [of "PropString ''showDetails''" functionRegistry "''onClick''" "''card-1''"
        "''btn-1''"] inherited(1)
    by (simp add: resolveByPrecedence_def functionRegistry_def)
  moreover have "resolveEventHandler functionRegistry ''onClick'' PropUndefined
      ''card-1'' ''btn-1'' = Callable (RecursiveHandler ''card-1'' ''btn-1'' ''onClick'')"
    using agree [of PropUndefined functionRegistry "''onClick''" "''card-1''" "''btn-1''"]
    by (simp add: resolveByPrecedence_def)
  moreover have "resolveEventHandler functionRegistry ''onClick'' (PropString ''toString'')
      ''card-1'' ''btn-1'' = Callable (InheritedFunction ''toString'')"
    using differ [of functionRegistry "''toString''" "Callable (InheritedFunction ''toString'')"
        "''onClick''" "''card-1''" "''btn-1''"] absent(1) inherited(2)
    by simp
  moreover have "resolveEventHandler functionRegistry ''onClick'' (PropString ''__proto__'')
      ''card-1'' ''btn-1'' = ObjectPrototype"
    using differ [of functionRegistry "''__proto__''" ObjectPrototype "''onClick''" "''card-1''"
        "''btn-1''"] absent(2) inherited(3)
    by simp
  moreover have "resolveByPrecedence functionRegistry ''onClick'' (PropString ''__proto__'')
      ''card-1'' ''btn-1'' = RecursiveHandler ''card-1'' ''btn-1'' ''onClick''"
    using absent(2) by (simp add: resolveByPrecedence_def)
  ultimately show ?thesis
    by simp
qed

section \<open>Properties of the generation pipeline\<close>

lemma attempts_append [simp]: "attempts i (xs @ ys) = attempts i xs + attempts i ys"
  by (simp add: attempts_def)

lemma attempts_Nil [simp]: "attempts i [] = 0"
  by (simp add: attempts_def)

lemma attempts_Cons [simp]:
  "attempts i (Log l c m # xs) = attempts i xs"
  "attempts i (StepCompleted j # xs) = attempts i xs"
  "attempts i (StepRetry j r # xs) = attempts i xs"
  "attempts i (StepFailed j e # xs) = attempts i xs"
  "attempts i (StepStarted j r # xs) = (if i = j then 1 else 0) + attempts i xs"
  by (simp_all add: attempts_def)

lemma logs_logEntry [simp]: "logs (logEntry e w) = logs w @ [e]"
  by (simp add: logEntry_def)

lemma logs_logger [simp]: "logs (logger l c m w) = logs w @ [Log l c m]"
  by (simp add: logger_def)

lemma ctx_logEntry [simp]: "ctx (logEntry e s) = ctx s"
  by (simp add: logEntry_def)

lemma ctx_logger [simp]: "ctx (logger l c m s) = ctx s"
  by (simp add: logger_def)

lemma logs_updateStep [simp]: "logs (updateStep i f s) = logs s"
  by (simp add: updateStep_def)

lemma steps_updateStep [simp]:
  "steps (ctx (updateStep i f s)) = (steps (ctx s))[i := f (steps (ctx s) ! i)]"
  by (simp add: updateStep_def)

lemma quietD:
  assumes "quiet operation" and "operation s = (r, s')"
  shows "steps (ctx s') = steps (ctx s)" and "attempts i (logs s') = attempts i (logs s)"
  using assms unfolding quiet_def by (metis snd_conv)+

lemma runChain_quiet:
  assumes "runChain n d e invoked (s :: PipelineState) = (r, s')"
  shows "ctx s' = ctx s \<and> attempts i (logs s') = attempts i (logs s)"
  using assms
  by (auto simp: runChain_def Let_def split: sum.splits)

text \<open>
  One run of the retry wrapper from the retry count \<open>retries\<close>: only the step \<open>i\<close> and
  its attempts change; a raised error leaves the step failed after \<open>3 - retries\<close> attempts.
\<close>

lemma executeStep_run:
  assumes "quiet operation" and "i < length (steps (ctx s))" and "retries \<le> 2"
    and "executeStep stored i operation retries s = (r, s')"
  shows "length (steps (ctx s')) = length (steps (ctx s)) \<and>
         (\<forall>j. j \<noteq> i \<longrightarrow> steps (ctx s') ! j = steps (ctx s) ! j) \<and>
         (\<forall>j. j \<noteq> i \<longrightarrow> attempts j (logs s') = attempts j (logs s)) \<and>
         attempts i (logs s') \<le> attempts i (logs s) + (3 - retries) \<and>
         (case r of
            Inr x \<Rightarrow> status (steps (ctx s') ! i) = Completed
          | Inl e \<Rightarrow> status (steps (ctx s') ! i) = Failed \<and>
                     step_error (steps (ctx s') ! i) = Some e \<and>
                     attempts i (logs s') = attempts i (logs s) + (3 - retries))"
  using assms
proof (induction stored i operation retries s arbitrary: r s' rule: executeStep.induct)
  case (1 stored i operation retries s)
  define s1 where "s1 = logEntry (StepStarted i retries)
     (updateStep i (\<lambda>st. st\<lparr>status := Running, retryCount := Some retries\<rparr>) s)"
  obtain r2 s2 where op: "operation s1 = (r2, s2)"
    by (cases "operation s1")
  have q: "steps (ctx s2) = steps (ctx s1)" "\<And>j. attempts j (logs s2) = attempts j (logs s1)"
    using quietD [OF "1.prems"(1) op] by auto
  have len1: "length (steps (ctx s1)) = length (steps (ctx s))"
    by (simp add: s1_def)
  have att1: "\<And>j. attempts j (logs s1) = attempts j (logs s) + (if j = i then 1 else 0)"
    by (simp add: s1_def)
  have oth1: "\<And>j. j \<noteq> i \<Longrightarrow> steps (ctx s1) ! j = steps (ctx s) ! j"
    by (simp add: s1_def)
  show ?case
  proof (cases r2)
    case (Inr x)
    then have "r = Inr x" "s' = logEntry (StepCompleted i)
        (updateStep i (\<lambda>st. st\<lparr>status := Completed, step_result := Some (stored x)\<rparr>) s2)"
      using "1.prems"(4) op
      by (simp_all add: executeStep.simps [of stored i operation retries s] s1_def [symmetric] Let_def)
    then show ?thesis
      using q len1 att1 oth1 "1.prems"(2,3) by (auto simp: )
  next
    case (Inl e)
    show ?thesis
    proof (cases "retries < maxRetries - 1")
      case True
      define s3 where "s3 = logEntry (StepRetry i (retries + 1)) s2"
      have run: "executeStep stored i operation (retries + 1) s3 = (r, s')"
        using "1.prems"(4) op Inl True
        by (simp add: executeStep.simps [of stored i operation retries s] s1_def [symmetric] Let_def s3_def)
      have len3: "i < length (steps (ctx s3))"
        using "1.prems"(2) q len1 by (simp add: s3_def)
      have r1: "retries + 1 \<le> 2"
        using True by (simp add: maxRetries_def)
      have IH: "length (steps (ctx s')) = length (steps (ctx s3)) \<and>
         (\<forall>j. j \<noteq> i \<longrightarrow> steps (ctx s') ! j = steps (ctx s3) ! j) \<and>
         (\<forall>j. j \<noteq> i \<longrightarrow> attempts j (logs s') = attempts j (logs s3)) \<and>
         attempts i (logs s') \<le> attempts i (logs s3) + (3 - (retries + 1)) \<and>
         (case r of
            Inr x \<Rightarrow> status (steps (ctx s') ! i) = Completed
          | Inl e \<Rightarrow> status (steps (ctx s') ! i) = Failed \<and>
                     step_error (steps (ctx s') ! i) = Some e \<and>
                     attempts i (logs s') = attempts i (logs s3) + (3 - (retries + 1)))"
        using "1.IH" [OF s1_def op [symmetric] Inl True "1.prems"(1)
            len3 [unfolded s3_def] r1 run [unfolded s3_def]]
        by (simp add: s3_def cong: sum.case_cong)
      have s3s: "steps (ctx s3) = steps (ctx s1)" "\<And>j. attempts j (logs s3) = attempts j (logs s1)"
        using q by (simp_all add: s3_def)
      show ?thesis
        using IH s3s len1 att1 oth1 r1 by (auto split: sum.splits)
    next
      case False
      then have ret: "retries = 2"
        using "1.prems"(3) by (simp add: maxRetries_def)
      have "r = Inl e" "s' = logEntry (StepFailed i e)
          (updateStep i (\<lambda>st. st\<lparr>status := Failed, step_error := Some e\<rparr>) s2)"
        using "1.prems"(4) op Inl False
        by (simp_all add: executeStep.simps [of stored i operation retries s] s1_def [symmetric] Let_def)
      then show ?thesis
        using q len1 att1 oth1 "1.prems"(2) ret by (auto simp: )
    qed
  qed
qed

lemma quiet_analyzeOperation: "quiet (analyzeOperation env p)"
  unfolding quiet_def
proof (intro allI)
  fix s :: PipelineState
  obtain r s' where rc: "runChain ''analyzerChain'' (parseAnalysis env) ''Failed to analyze user prompt''
      (analyzerChain env (analyzerCalls (logger LogInfo ''ComponentAnalyzer'' ''Starting component analysis'' s)))
      ((logger LogInfo ''ComponentAnalyzer'' ''Starting component analysis'' s)
         \<lparr>analyzerCalls := analyzerCalls (logger LogInfo ''ComponentAnalyzer'' ''Starting component analysis'' s) + 1\<rparr>) = (r, s')"
    by (metis surj_pair)
  have "ctx s' = ctx s" "\<And>j. attempts j (logs s') = attempts j (logs s)"
    using runChain_quiet [OF rc] by simp_all
  then show "steps (ctx (snd (analyzeOperation env p s))) = steps (ctx s) \<and>
       (\<forall>i. attempts i (logs (snd (analyzeOperation env p s))) = attempts i (logs s))"
    using rc
    by (auto simp: analyzeOperation_def analyzeComponents_def Let_def split: sum.splits option.splits)
qed

lemma quiet_availabilityOperation: "quiet (availabilityOperation env)"
  by (auto simp: quiet_def availabilityOperation_def Let_def split: option.splits)

lemma quiet_fetchOperation: "quiet (fetchOperation env un)"
  by (auto simp: quiet_def fetchOperation_def)

lemma quiet_generateOperation: "quiet (generateOperation env)"
  unfolding quiet_def
proof (intro allI)
  fix s :: PipelineState
  obtain r s' where rc: "runChain ''codeGeneratorChain'' (parseComponents env)
      ''Failed to generate component code'' (codeGeneratorChain env (codeGeneratorCalls s))
      (s\<lparr>codeGeneratorCalls := codeGeneratorCalls s + 1\<rparr>) = (r, s')"
    by (metis surj_pair)
  have "ctx s' = ctx s" "\<And>j. attempts j (logs s') = attempts j (logs s)"
    using runChain_quiet [OF rc] by simp_all
  then show "steps (ctx (snd (generateOperation env s))) = steps (ctx s) \<and>
       (\<forall>i. attempts i (logs (snd (generateOperation env s))) = attempts i (logs s))"
    using rc
    by (auto simp: generateOperation_def generateComponentCode_def Let_def
        split: sum.splits option.splits)
qed

lemma quiet_assembleOperation: "quiet (assembleOperation env)"
  by (auto simp: quiet_def assembleOperation_def assembleComponents_def Let_def split: sum.splits)

lemma stageInv_initial: "stageInv 0 (initialState p)"
  by (simp add: stageInv_def initialState_def initialSteps_def nth_Cons split: nat.splits)

lemma stage_step:
  assumes inv: "stageInv k s" and q: "quiet operation" and k: "k < 5"
    and run: "executeStep stored k operation 0 s = (r, s')"
  shows "case r of Inr x \<Rightarrow> stageInv (Suc k) s' | Inl e \<Rightarrow> failedAt k s'"
proof -
  have len: "k < length (steps (ctx s))"
    using inv k by (simp add: stageInv_def)
  note R = executeStep_run [OF q len _ run, simplified]
  show ?thesis
  proof (cases r)
    case (Inr x)
    have "status (steps (ctx s') ! j) = Completed" if "j < Suc k" for j
      using R inv that Inr by (cases "j = k") (auto simp: stageInv_def)
    moreover have "status (steps (ctx s') ! j) = Pending" if "Suc k \<le> j" "j < 5" for j
      using R inv that by (auto simp: stageInv_def)
    moreover have "attempts j (logs s') \<le> 3" for j
      using R inv by (cases "j = k") (auto simp: stageInv_def)
    moreover have "attempts j (logs s') = 0" if "Suc k \<le> j" for j
      using R inv that by (auto simp: stageInv_def)
    ultimately show ?thesis
      using R inv Inr by (simp add: stageInv_def)
  next
    case (Inl e)
    have "status (steps (ctx s') ! j) = Completed" if "j < k" for j
      using R inv that by (auto simp: stageInv_def)
    moreover have "status (steps (ctx s') ! j) = Pending" if "k < j" "j < 5" for j
      using R inv that by (auto simp: stageInv_def)
    moreover have "attempts j (logs s') \<le> 3" for j
      using R inv Inl by (cases "j = k") (auto simp: stageInv_def)
    moreover have "attempts k (logs s') = 3"
      using R inv Inl by (auto simp: stageInv_def)
    moreover have "attempts j (logs s') = 0" if "k < j" for j
      using R inv that by (auto simp: stageInv_def)
    ultimately show ?thesis
      using R inv Inl by (simp add: failedAt_def stageInv_def)
  qed
qed

lemma fetchStep_stage:
  assumes inv: "stageInv 2 s" and run: "fetchStep env s = (r, s')"
  shows "case r of Inr u \<Rightarrow> stageInv 3 s' | Inl e \<Rightarrow> failedAt 2 s' \<or> stageInv 2 s'"
proof (cases "step_result (steps (ctx s) ! 1)")
  case None
  then show ?thesis
    using inv run by (auto simp: fetchStep_def)
next
  case (Some res)
  show ?thesis
  proof (cases res)
    case (AvailabilityResult available unavailable)
    show ?thesis
    proof (cases "unavailable = []")
      case True
      then have r: "r = Inr ()" and s': "s' = updateStep 2
          (\<lambda>st. st\<lparr>status := Completed,
                   step_result := Some (TextResult ''No components to fetch'')\<rparr>) s"
        using run Some AvailabilityResult by (simp_all add: fetchStep_def)
      have "status (steps (ctx s') ! j) = Completed" if "j < 3" for j
        using inv that by (cases "j = 2") (auto simp: s' stageInv_def)
      moreover have "status (steps (ctx s') ! j) = Pending" if "3 \<le> j" "j < 5" for j
        using inv that by (auto simp: s' stageInv_def)
      ultimately show ?thesis
        using inv r by (simp add: stageInv_def s')
    next
      case False
      obtain r2 s2 where ex: "executeStep FetchResults 2 (fetchOperation env unavailable) 0 s = (r2, s2)"
        by (metis surj_pair)
      have st: "case r2 of Inr x \<Rightarrow> stageInv (Suc 2) s2 | Inl e \<Rightarrow> failedAt 2 s2"
        by (rule stage_step [OF inv quiet_fetchOperation _ ex]) simp
      have "r = (case r2 of Inl e \<Rightarrow> Inl e | Inr f \<Rightarrow> Inr ())" "s' = s2"
        using run Some AvailabilityResult False ex
        by (auto simp: fetchStep_def split: sum.splits)
      then show ?thesis
        using st by (auto split: sum.splits simp: numeral_3_eq_3)
    qed
  qed (use inv run Some in \<open>auto simp: fetchStep_def\<close>)
qed

lemma generationFailed_simps [simp]:
  "components (generationFailed s) = []"
  "success (generationFailed s) = False"
  "ctx (final (generationFailed s)) = ctx s"
  "attempts i (logs (final (generationFailed s))) = attempts i (logs s)"
  by (simp_all add: generationFailed_def)

lemma failedAt_outcome:
  assumes f: "failedAt k s" and k: "k < 5"
  shows "boundedRetryOutcome (generationFailed s)"
proof -
  have before: "\<And>j. j < k \<Longrightarrow> status (steps (ctx s) ! j) = Completed"
    and after: "\<And>j. k < j \<Longrightarrow> j < 5 \<Longrightarrow> status (steps (ctx s) ! j) = Pending"
    and later: "\<And>j. k < j \<Longrightarrow> attempts j (logs s) = 0"
    and att: "\<And>j. attempts j (logs s) \<le> 3"
    and at: "status (steps (ctx s) ! k) = Failed" "step_error (steps (ctx s) ! k) \<noteq> None"
      "attempts k (logs s) = 3"
    using f by (simp_all add: failedAt_def)
  have only: "i = k" if "i < 5" "status (steps (ctx s) ! i) = Failed" for i
  proof (rule ccontr)
    assume "i \<noteq> k"
    then consider "i < k" | "k < i" by linarith
    then show False
    proof cases
      case 1
      then show False using before [of i] that by simp
    next
      case 2
      then show False using after [of i] that by simp
    qed
  qed
  have ended: "status (steps (ctx s) ! i) = Completed \<or> status (steps (ctx s) ! i) = Failed"
    if "0 < attempts i (logs s)" for i
  proof -
    consider "i < k" | "i = k" | "k < i" by linarith
    then show ?thesis
    proof cases
      case 1
      then show ?thesis using before [of i] by simp
    next
      case 2
      then show ?thesis using at by simp
    next
      case 3
      then show ?thesis using later [of i] that by simp
    qed
  qed
  have "step_error (steps (ctx s) ! i) \<noteq> None \<and> attempts i (logs s) = 3 \<and>
        (\<forall>j. i < j \<and> j < 5 \<longrightarrow>
           status (steps (ctx s) ! j) = Pending \<and> attempts j (logs s) = 0)"
    if "i < 5" "status (steps (ctx s) ! i) = Failed" for i
    using only [OF that] at after later by simp
  then show ?thesis
    using att ended by (simp add: boundedRetryOutcome_def; blast)
qed

lemma stageInv_no_failure:
  assumes "stageInv k s" and "i < 5"
  shows "status (steps (ctx s) ! i) \<noteq> Failed"
proof (cases "i < k")
  case True
  then have "status (steps (ctx s) ! i) = Completed"
    using assms by (simp add: stageInv_def)
  then show ?thesis by simp
next
  case False
  then have "status (steps (ctx s) ! i) = Pending"
    using assms by (simp add: stageInv_def)
  then show ?thesis by simp
qed

lemma stageInv_attempted:
  assumes "stageInv k s" and "0 < attempts i (logs s)"
  shows "status (steps (ctx s) ! i) = Completed"
proof (cases "i < k")
  case True
  then show ?thesis
    using assms by (simp add: stageInv_def)
next
  case False
  then have "attempts i (logs s) = 0"
    using assms(1) by (simp add: stageInv_def)
  then show ?thesis
    using assms(2) by simp
qed

lemma stageInv_outcome_failed:
  assumes inv: "stageInv k s"
  shows "boundedRetryOutcome (generationFailed s)"
proof -
  have "\<And>j. attempts j (logs s) \<le> 3"
    using inv by (simp add: stageInv_def)
  then show ?thesis
    using stageInv_no_failure [OF inv] stageInv_attempted [OF inv]
    by (simp add: boundedRetryOutcome_def; blast)
qed

lemma stageInv_outcome_success:
  assumes inv: "stageInv k s"
  shows "boundedRetryOutcome \<lparr>components = cs, final = logger l c m s, success = True\<rparr>"
proof -
  have "\<And>j. attempts j (logs s) \<le> 3"
    using inv by (simp add: stageInv_def)
  then show ?thesis
    using stageInv_no_failure [OF inv] stageInv_attempted [OF inv]
    by (simp add: boundedRetryOutcome_def; blast)
qed

lemma generateUI_outcome: "boundedRetryOutcome (generateUI env p)"
proof -
  obtain r1 s1 where e1:
    "executeStep AnalysisResult 0 (analyzeOperation env p) 0 (initialState p) = (r1, s1)"
    by (metis surj_pair)
  have st1: "case r1 of Inr x \<Rightarrow> stageInv (Suc 0) s1 | Inl e \<Rightarrow> failedAt 0 s1"
    by (rule stage_step [OF stageInv_initial quiet_analyzeOperation _ e1]) simp
  show ?thesis
  proof (cases r1)
    case (Inl e)
    then show ?thesis
      using e1 st1 failedAt_outcome [of 0 s1] by (simp add: generateUI_def)
  next
    case Inr1: (Inr x1)
    obtain r2 s2 where e2:
      "executeStep (\<lambda>(available, unavailable). AvailabilityResult available unavailable) 1
         (availabilityOperation env) 0 s1 = (r2, s2)"
      by (metis surj_pair)
    have i1: "stageInv 1 s1" using st1 Inr1 by simp
    have st2: "case r2 of Inr x \<Rightarrow> stageInv (Suc 1) s2 | Inl e \<Rightarrow> failedAt 1 s2"
      by (rule stage_step [OF i1 quiet_availabilityOperation _ e2]) simp
    show ?thesis
    proof (cases r2)
      case (Inl e)
      then show ?thesis
        using e1 Inr1 e2 st2 failedAt_outcome [of 1 s2] by (simp add: generateUI_def)
    next
      case Inr2: (Inr x2)
      obtain r3 s3 where e3: "fetchStep env s2 = (r3, s3)"
        by (metis surj_pair)
      have i2: "stageInv 2 s2" using st2 Inr2 by (simp add: numeral_2_eq_2)
      note st3 = fetchStep_stage [OF i2 e3]
      show ?thesis
      proof (cases r3)
        case (Inl e)
        then show ?thesis
          using e1 Inr1 e2 Inr2 e3 st3 failedAt_outcome [of 2 s3] stageInv_outcome_failed [of 2 s3]
          by (auto simp: generateUI_def)
      next
        case Inr3: (Inr x3)
        obtain r4 s4 where e4:
          "executeStep TextResult 3 (generateOperation env) 0 s3 = (r4, s4)"
          by (metis surj_pair)
        have i3: "stageInv 3 s3" using st3 Inr3 by simp
        have st4: "case r4 of Inr x \<Rightarrow> stageInv (Suc 3) s4 | Inl e \<Rightarrow> failedAt 3 s4"
          by (rule stage_step [OF i3 quiet_generateOperation _ e4]) simp
        show ?thesis
        proof (cases r4)
          case (Inl e)
          then show ?thesis
            using e1 Inr1 e2 Inr2 e3 Inr3 e4 st4 failedAt_outcome [of 3 s4]
            by (simp add: generateUI_def)
        next
          case Inr4: (Inr x4)
          obtain r5 s5 where e5:
            "executeStep ComponentsResult 4 (assembleOperation env) 0 s4 = (r5, s5)"
            by (metis surj_pair)
          have i4: "stageInv 4 s4" using st4 Inr4 by (simp add: eval_nat_numeral)
          have st5: "case r5 of Inr x \<Rightarrow> stageInv (Suc 4) s5 | Inl e \<Rightarrow> failedAt 4 s5"
            by (rule stage_step [OF i4 quiet_assembleOperation _ e5]) simp
          show ?thesis
          proof (cases r5)
            case (Inl e)
            then show ?thesis
              using e1 Inr1 e2 Inr2 e3 Inr3 e4 Inr4 e5 st5 failedAt_outcome [of 4 s5]
              by (simp add: generateUI_def)
          next
            case (Inr x5)
            then show ?thesis
              using e1 Inr1 e2 Inr2 e3 Inr3 e4 Inr4 e5 st5 stageInv_outcome_success [of "Suc 4" s5]
              by (simp add: generateUI_def)
          qed
        qed
      qed
    qed
  qed
qed

lemmas pipeline_eval = generateUI_def executeStep.simps analyzeOperation_def
  analyzeComponents_def runChain_def failingEnv_def exampleAnalysis_def unparseableReply_def
  validateAnalysis_def availabilityOperation_def fetchStep_def fetchOperation_def
  generateOperation_def generateComponentCode_def initialState_def initialSteps_def
  updateStep_def logger_def logEntry_def maxRetries_def uniqueInOrder_def
  isComponentAvailable_def toLowerCase_def lowerChar_def generationFailed_def Let_def

lemma failingEnv_statuses:
  "map status (steps (ctx (final (generateUI failingEnv ''a login form'')))) =
     [Completed, Completed, Completed, Failed, Pending]"
  by (simp add: pipeline_eval)

lemma executeStep_Inr:
  "executeStep stored i operation retries s = (Inr x, s') \<Longrightarrow>
     \<exists>s1 s2. operation s1 = (Inr x, s2)"
proof (induction stored i operation retries s rule: executeStep.induct)
  case (1 stored i operation retries s)
  define s1 where "s1 = logEntry (StepStarted i retries)
     (updateStep i (\<lambda>st. st\<lparr>status := Running, retryCount := Some retries\<rparr>) s)"
  obtain r2 s2 where op: "operation s1 = (r2, s2)"
    by (cases "operation s1")
  show ?case
  proof (cases r2)
    case (Inr y)
    then have "y = x"
      using "1.prems" op
      by (simp add: executeStep.simps [of stored i operation retries s] s1_def [symmetric] Let_def)
    then show ?thesis using op Inr by blast
  next
    case (Inl e)
    show ?thesis
    proof (cases "retries < maxRetries - 1")
      case True
      have "executeStep stored i operation (retries + 1)
              (logEntry (StepRetry i (retries + 1)) s2) = (Inr x, s')"
        using "1.prems" op Inl True
        by (simp add: executeStep.simps [of stored i operation retries s] s1_def [symmetric] Let_def)
      then show ?thesis
        using "1.IH" [OF s1_def op [symmetric] Inl True] by simp
    next
      case False
      then show ?thesis
        using "1.prems" op Inl
        by (simp add: executeStep.simps [of stored i operation retries s] s1_def [symmetric] Let_def)
    qed
  qed
qed

lemma generateOperation_unparseable:
  assumes "\<forall>k. \<exists>raw msg. codeGeneratorChain env k = Inr raw \<and> parseComponents env raw = Inl msg"
  shows "generateOperation env s \<noteq> (Inr x, s')"
proof -
  obtain raw msg where "codeGeneratorChain env (codeGeneratorCalls s) = Inr raw"
    "parseComponents env raw = Inl msg"
    using assms by blast
  then show ?thesis
    by (auto simp: generateOperation_def generateComponentCode_def runChain_def Let_def
        split: option.splits)
qed

text \<open>
  Claim C2, at the failing input.  When every reply of the code generator chain is a text
  that does not parse, step 4 raises on each attempt and the run ends with no components
  and \<open>success: false\<close>: the fallback card of \<open>assembleComponents\<close> is never built,
  because the reply is parsed in \<open>runChain\<close>, before the assembly step.
\<close>

theorem unparseable_synthesis_fails_run:
  assumes "\<forall>k. \<exists>raw msg. codeGeneratorChain env k = Inr raw \<and> parseComponents env raw = Inl msg"
  shows "success (generateUI env p) = False \<and> components (generateUI env p) = []"
proof -
  have no: "executeStep TextResult 3 (generateOperation env) 0 s \<noteq> (Inr x, s')" for s x s'
    using executeStep_Inr [of TextResult 3 "generateOperation env" 0 s x s']
      generateOperation_unparseable [OF assms] by blast
  show ?thesis
    by (auto simp: generateUI_def no split: prod.splits sum.splits)
qed

theorem unparseable_synthesis_fails_run_witness:
  "codeGeneratorChain failingEnv 0 = Inr unparseableReply \<and>
   parseComponents failingEnv unparseableReply =
     Inl ''Unexpected token I in JSON at position 0'' \<and>
   success (generateUI failingEnv ''a login form'') = False \<and>
   components (generateUI failingEnv ''a login form'') = []"
proof -
  have "\<forall>k. \<exists>raw msg. codeGeneratorChain failingEnv k = Inr raw \<and>
      parseComponents failingEnv raw = Inl msg"
    by (simp add: failingEnv_def unparseableReply_def)
  from unparseable_synthesis_fails_run [OF this, of "''a login form''"]
  show ?thesis
    by (simp add: failingEnv_def unparseableReply_def)
qed

lemma assembleComponents_fallback:
  "parseGeneratedCode env (generatedCode (ctx s)) = Inl msg \<Longrightarrow>
     fst (assembleComponents env s) = [fallbackComponent env (ctx s)]"
  by (simp add: assembleComponents_def Let_def)

text \<open>
  Claim C5.  In every run of the pipeline no step is attempted more than three times and
  an attempted step ends completed or failed; a step whose status is failed has its error
  recorded and was attempted exactly three times, every later step is still pending and was
  never attempted, and the run returns no components and \<open>success: false\<close>.
\<close>

theorem pipeline_bounded_retry:
  "(\<forall>i. attempts i (logs (final (generateUI env p))) \<le> 3) \<and>
   (\<forall>i. i < 5 \<and> 0 < attempts i (logs (final (generateUI env p))) \<longrightarrow>
      status (steps (ctx (final (generateUI env p))) ! i) = Completed \<or>
      status (steps (ctx (final (generateUI env p))) ! i) = Failed) \<and>
   (\<forall>i. i < 5 \<and> status (steps (ctx (final (generateUI env p))) ! i) = Failed \<longrightarrow>
      step_error (steps (ctx (final (generateUI env p))) ! i) \<noteq> None \<and>
      attempts i (logs (final (generateUI env p))) = 3 \<and>
      (\<forall>j. i < j \<and> j < 5 \<longrightarrow>
         status (steps (ctx (final (generateUI env p))) ! j) = Pending \<and>
         attempts j (logs (final (generateUI env p))) = 0) \<and>
      components (generateUI env p) = [] \<and> \<not> success (generateUI env p))"
  using generateUI_outcome [of env p] unfolding boundedRetryOutcome_def .

theorem pipeline_bounded_retry_witness:
  "status (steps (ctx (final (generateUI failingEnv ''a login form''))) ! 3) = Failed \<and>
   step_error (steps (ctx (final (generateUI failingEnv ''a login form''))) ! 3) \<noteq> None \<and>
   attempts 3 (logs (final (generateUI failingEnv ''a login form''))) = 3 \<and>
   status (steps (ctx (final (generateUI failingEnv ''a login form''))) ! 4) = Pending \<and>
   attempts 4 (logs (final (generateUI failingEnv ''a login form''))) = 0 \<and>
   components (generateUI failingEnv ''a login form'') = [] \<and>
   \<not> success (generateUI failingEnv ''a login form'')"
proof -
  let ?F = "steps (ctx (final (generateUI failingEnv ''a login form'')))"
  have "length (map status ?F) = 5"
    by (simp only: failingEnv_statuses) simp
  then have len: "length ?F = 5"
    by simp
  have "map status ?F ! 3 = Failed"
    by (simp only: failingEnv_statuses) simp
  then have failed: "status (?F ! 3) = Failed"
    using len by simp
  have all: "step_error (?F ! 3) \<noteq> None \<and>
      attempts 3 (logs (final (generateUI failingEnv ''a login form''))) = 3 \<and>
      (\<forall>j. 3 < j \<and> j < 5 \<longrightarrow>
         status (?F ! j) = Pending \<and>
         attempts j (logs (final (generateUI failingEnv ''a login form''))) = 0) \<and>
      components (generateUI failingEnv ''a login form'') = [] \<and>
      \<not> success (generateUI failingEnv ''a login form'')"
    using pipeline_bounded_retry [of failingEnv "''a login form''", THEN conjunct2,
        THEN conjunct2, THEN spec, of 3] failed
    by simp
  then have "status (?F ! 4) = Pending \<and>
      attempts 4 (logs (final (generateUI failingEnv ''a login form''))) = 0"
    by simp
  then show ?thesis
    using failed all by simp
qed

section \<open>Properties of the generative fallback handler\<close>

lemma store_logger [simp]: "store (logger l c m w) = store w"
  by (simp add: logger_def logEntry_def)

lemma storage_logger [simp]: "storage (logger l c m w) = storage w"
  by (simp add: logger_def logEntry_def)

lemma runChain_world:
  "runChain n d e invoked (w :: World) = (r, w') \<Longrightarrow> store w' = store w \<and> storage w' = storage w"
  by (auto simp: runChain_def Let_def split: sum.splits)

lemma runChain_value:
  "fst (runChain n d e invoked w) = fst (runChain n d e invoked w')"
  by (auto simp: runChain_def Let_def split: sum.splits)

lemma captureContext_value:
  "store w' = store w \<Longrightarrow>
     fst (captureContext env elementId ev w') = fst (captureContext env elementId ev w)"
  by (simp add: captureContext_def Let_def split: option.splits)

lemma captureContext_world:
  "captureContext env elementId ev w = (r, w') \<Longrightarrow> store w' = store w \<and> storage w' = storage w"
  by (auto simp: captureContext_def Let_def split: option.splits)

lemma captureContext_None:
  "getElementById env elementId = None \<Longrightarrow>
     captureContext env elementId ev w =
       (Inl (''Element with ID '' @ elementId @ '' not found for context capture.''),
        logger LogError ''ContextManager'' (''Could not find element with ID: '' @ elementId)
          (logger LogInfo ''ContextManager''
             (''Capturing context for recursive event on element: '' @ elementId) w))"
  by (simp add: captureContext_def Let_def)

lemma getCached_value:
  "storage w' = storage w \<Longrightarrow>
     fst (getCachedRecursiveResult env context w') = fst (getCachedRecursiveResult env context w)"
  by (simp add: getCachedRecursiveResult_def Let_def split: option.splits)

lemma getCached_world:
  "getCachedRecursiveResult env context w = (r, w') \<Longrightarrow>
     store w' = store w \<and> storage w' = storage w"
  by (auto simp: getCachedRecursiveResult_def Let_def split: option.splits if_splits)

lemma generateRecursiveUI_value:
  "fst (generateRecursiveUI env p w') = fst (generateRecursiveUI env p w)"
  using runChain_value [of "''recursiveGeneratorChain''" "parseRecursive env"
      "''Failed to generate recursive UI''" "recursiveGeneratorChain env (generatorInput p)" w' w]
  by (auto simp: generateRecursiveUI_def split: prod.splits sum.splits)

lemma generateRecursiveUI_world:
  "generateRecursiveUI env p w = (r, w') \<Longrightarrow> store w' = store w \<and> storage w' = storage w"
  by (auto simp: generateRecursiveUI_def split: prod.splits sum.splits dest: runChain_world)

lemma store_handlerFailed [simp]: "store (handlerFailed w) = store w"
  by (simp add: handlerFailed_def)

lemma storage_handlerFailed [simp]: "storage (handlerFailed w) = storage w"
  by (simp add: handlerFailed_def)

lemma logs_handlerFailed [simp]:
  "logs (handlerFailed w) =
     logs w @ [Log LogError ''FunctionResolver'' ''Error during recursive UI generation'']"
  by (simp add: handlerFailed_def logger_def logEntry_def)

lemma store_cacheRecursiveResult [simp]: "store (cacheRecursiveResult env context r w) = store w"
  by (simp add: cacheRecursiveResult_def Let_def)

lemma store_insertRecursiveUI:
  "store (insertRecursiveUI component target w) =
     (case component of
        None \<Rightarrow> store w
      | Some c \<Rightarrow> if target = [] then store w else insertComponentAfter target c (store w))"
  by (simp add: insertRecursiveUI_def split: option.splits)

text \<open>The handler, case by case.\<close>

lemma handler_capture_failed:
  assumes "getElementById env elementId = None"
  shows "recursiveHandlerBody env c elementId n ev w =
     handlerFailed
       (logger LogError ''ContextManager'' (''Could not find element with ID: '' @ elementId)
          (logger LogInfo ''ContextManager''
             (''Capturing context for recursive event on element: '' @ elementId)
             (logger LogInfo ''FunctionResolver''
                (''Recursive handler triggered for '' @ n @ '' on '' @ c @ '':'' @ elementId)
                (w\<lparr>defaultPrevented := True, propagationStopped := True\<rparr>))))"
  by (simp add: recursiveHandlerBody_def captureContext_None [OF assms] Let_def)

lemma handler_unfold:
  fixes env :: HandlerEnv and element :: Element and w :: World and ev :: DomEvent
  assumes el: "getElementById env elementId = Some element"
  defines "cx \<equiv> captureFull env element (currentComponents (store w)) (target_value ev) None"
  shows "\<exists>w2 w4. store w2 = store w \<and> store w4 = store w \<and>
     recursiveHandlerBody env c elementId n ev w =
       (case fst (getCachedRecursiveResult env cx w) of
          Some cachedResult \<Rightarrow>
            insertRecursiveUI (entry_ui cachedResult) c
              (logger LogInfo ''FunctionResolver'' ''Using cached recursive UI'' w2)
        | None \<Rightarrow>
            (case fst (generateRecursiveUI env cx w) of
               Inl msg \<Rightarrow> handlerFailed w4
             | Inr result \<Rightarrow>
                 (case rr_metadata result of
                    None \<Rightarrow> handlerFailed w4
                  | Some metadata0 \<Rightarrow>
                      logger LogDebug ''FunctionResolver''
                        ''Cached recursive generation result''
                        (cacheRecursiveResult env cx (rr_ui result, metadata0)
                           (logger LogDebug ''FunctionResolver''
                              ''Inserted recursive UI into orchestrator''
                              (insertRecursiveUI (rr_ui result) c
                                 (logger LogInfo ''FunctionResolver''
                                    ''Received recursive UI from AI service'' w4)))))))"
proof -
  define w0 where "w0 = logger LogInfo ''FunctionResolver''
      (''Recursive handler triggered for '' @ n @ '' on '' @ c @ '':'' @ elementId)
      (w\<lparr>defaultPrevented := True, propagationStopped := True\<rparr>)"
  have s0: "store w0 = store w" "storage w0 = storage w"
    by (simp_all add: w0_def)
  obtain w1 where cap: "captureContext env elementId ev w0 = (Inr cx, w1)"
    using el s0 by (simp add: captureContext_def Let_def cx_def)
  have s1: "store w1 = store w" "storage w1 = storage w"
    using captureContext_world [OF cap] s0 by simp_all
  obtain r2 w2 where get: "getCachedRecursiveResult env cx
      (logger LogDebug ''FunctionResolver'' ''Captured context for recursive generation'' w1) =
      (r2, w2)"
    by (metis surj_pair)
  have r2: "fst (getCachedRecursiveResult env cx w) = r2"
    using getCached_value [of "logger LogDebug ''FunctionResolver''
      ''Captured context for recursive generation'' w1" w env cx] get s1 by simp
  have s2: "store w2 = store w" "storage w2 = storage w"
    using getCached_world [OF get] s1 by simp_all
  obtain r4 w4 where gen: "generateRecursiveUI env cx
      (logger LogDebug ''FunctionResolver'' ''Built fallback prompt''
         (logger LogInfo ''AIService'' ''Building fallback prompt from context'' w2)) =
      (r4, w4)"
    by (metis surj_pair)
  have r4: "fst (generateRecursiveUI env cx w) = r4"
    using generateRecursiveUI_value [of env cx w] gen by (metis fst_conv)
  have s4: "store w4 = store w"
    using generateRecursiveUI_world [OF gen] s2 by simp
  have "recursiveHandlerBody env c elementId n ev w =
       (case r2 of
          Some cachedResult \<Rightarrow>
            insertRecursiveUI (entry_ui cachedResult) c
              (logger LogInfo ''FunctionResolver'' ''Using cached recursive UI'' w2)
        | None \<Rightarrow>
            (case r4 of
               Inl msg \<Rightarrow> handlerFailed w4
             | Inr result \<Rightarrow>
                 (case rr_metadata result of
                    None \<Rightarrow> handlerFailed w4
                  | Some metadata0 \<Rightarrow>
                      logger LogDebug ''FunctionResolver''
                        ''Cached recursive generation result''
                        (cacheRecursiveResult env cx (rr_ui result, metadata0)
                           (logger LogDebug ''FunctionResolver''
                              ''Inserted recursive UI into orchestrator''
                              (insertRecursiveUI (rr_ui result) c
                                 (logger LogInfo ''FunctionResolver''
                                    ''Received recursive UI from AI service'' w4)))))))"
  proof (cases r2)
    case (Some cachedResult)
    show ?thesis
      unfolding recursiveHandlerBody_def Let_def w0_def [symmetric]
      by (simp only: cap prod.case sum.case get [unfolded Some] option.case Some)
  next
    case None
    show ?thesis
      unfolding recursiveHandlerBody_def Let_def w0_def [symmetric]
      by (simp only: cap prod.case sum.case get [unfolded None] option.case
          buildFallbackPrompt_def gen None)
  qed
  then show ?thesis
    using s2 s4 r2 r4 by blast
qed

lemma handler_store:
  assumes el: "getElementById env elementId = Some element"
  shows "store (recursiveHandlerBody env c elementId n ev w) =
     (case fst (getCachedRecursiveResult env
                  (captureFull env element (currentComponents (store w)) (target_value ev) None)
                  w) of
        Some cachedResult \<Rightarrow>
          (case entry_ui cachedResult of
             None \<Rightarrow> store w
           | Some ui \<Rightarrow> if c = [] then store w else insertComponentAfter c ui (store w))
      | None \<Rightarrow>
          (case fst (generateRecursiveUI env
                       (captureFull env element (currentComponents (store w)) (target_value ev)
                          None) w) of
             Inl msg \<Rightarrow> store w
           | Inr result \<Rightarrow>
               (case rr_metadata result of
                  None \<Rightarrow> store w
                | Some md \<Rightarrow>
                    (case rr_ui result of
                       None \<Rightarrow> store w
                     | Some ui \<Rightarrow>
                         if c = [] then store w else insertComponentAfter c ui (store w)))))"
proof -
  obtain w2 w4 where "store w2 = store w" "store w4 = store w"
    and "recursiveHandlerBody env c elementId n ev w =
       (case fst (getCachedRecursiveResult env
                    (captureFull env element (currentComponents (store w)) (target_value ev)
                       None) w) of
          Some cachedResult \<Rightarrow>
            insertRecursiveUI (entry_ui cachedResult) c
              (logger LogInfo ''FunctionResolver'' ''Using cached recursive UI'' w2)
        | None \<Rightarrow>
            (case fst (generateRecursiveUI env
                         (captureFull env element (currentComponents (store w))
                            (target_value ev) None) w) of
               Inl msg \<Rightarrow> handlerFailed w4
             | Inr result \<Rightarrow>
                 (case rr_metadata result of
                    None \<Rightarrow> handlerFailed w4
                  | Some metadata0 \<Rightarrow>
                      logger LogDebug ''FunctionResolver''
                        ''Cached recursive generation result''
                        (cacheRecursiveResult env
                           (captureFull env element (currentComponents (store w))
                              (target_value ev) None)
                           (rr_ui result, metadata0)
                           (logger LogDebug ''FunctionResolver''
                              ''Inserted recursive UI into orchestrator''
                              (insertRecursiveUI (rr_ui result) c
                                 (logger LogInfo ''FunctionResolver''
                                    ''Received recursive UI from AI service'' w4)))))))"
    using handler_unfold [OF el, where w = w and ev = ev and c = c and n = n] by blast
  then show ?thesis
    by (simp add: store_insertRecursiveUI split: option.splits sum.splits)
qed

lemma handler_generation_failed:
  assumes el: "getElementById env elementId = Some element"
    and miss: "fst (getCachedRecursiveResult env
                  (captureFull env element (currentComponents (store w)) (target_value ev) None)
                  w) = None"
    and fail: "case fst (generateRecursiveUI env
                  (captureFull env element (currentComponents (store w)) (target_value ev) None)
                  w) of
                 Inl msg \<Rightarrow> True
               | Inr result \<Rightarrow> rr_metadata result = None"
  shows "\<exists>w4. store w4 = store w \<and> recursiveHandlerBody env c elementId n ev w = handlerFailed w4"
  using handler_unfold [OF el, where w = w and ev = ev and c = c and n = n] miss fail
  by (auto split: sum.splits)

lemma captureFull_getItemFails [simp]:
  "captureFull (env\<lparr>getItemFails := b\<rparr>) element cs input md = captureFull env element cs input md"
  by (simp add: captureFull_def)

lemma generateRecursiveUI_getItemFails:
  "fst (generateRecursiveUI (env\<lparr>getItemFails := b\<rparr>) p w') = fst (generateRecursiveUI env p w)"
  using runChain_value [of "''recursiveGeneratorChain''" "parseRecursive env"
      "''Failed to generate recursive UI''" "recursiveGeneratorChain env (generatorInput p)" w' w]
  by (auto simp: generateRecursiveUI_def split: prod.splits sum.splits)

lemma getCached_fails:
  "getItemFails env \<Longrightarrow> fst (getCachedRecursiveResult env cx w) = None"
  by (simp add: getCachedRecursiveResult_def)

lemma getCached_empty:
  "storage w = Map.empty \<Longrightarrow> fst (getCachedRecursiveResult env cx w) = None"
  by (simp add: getCachedRecursiveResult_def Let_def)

lemma handler_store_fragment:
  assumes el: "getElementById env elementId = Some element"
  shows "store (recursiveHandlerBody env c elementId n ev w) =
     (case handlerFragment env
             (captureFull env element (currentComponents (store w)) (target_value ev) None) w of
        None \<Rightarrow> store w
      | Some ui \<Rightarrow> if c = [] then store w else insertComponentAfter c ui (store w))"
  by (simp add: handler_store [OF el] handlerFragment_def split: option.splits sum.splits)

lemma findIndex_first:
  "P x \<Longrightarrow> \<forall>y\<in>set pre. \<not> P y \<Longrightarrow> findIndex P (pre @ x # post) = Some (length pre)"
  by (induction pre) simp_all

lemma insertComponentAfter_not_found:
  assumes "c \<notin> comp_id ` set (currentComponents s)"
  shows "currentComponents (insertComponentAfter c ui s) = currentComponents s @ [ui]"
proof -
  have "findIndex (\<lambda>x. comp_id x = c) (currentComponents s) = None"
    using assms by (auto simp: findIndex_None)
  then show ?thesis
    by (simp add: insertComponentAfter_def)
qed

lemma insertComponentAfter_found:
  assumes "currentComponents s = pre @ x # post" and "comp_id x = c"
    and "c \<notin> comp_id ` set pre"
  shows "currentComponents (insertComponentAfter c ui s) = pre @ x # ui # post"
proof -
  have "\<forall>y\<in>set pre. comp_id y \<noteq> c"
    using assms(3) by blast
  then have "findIndex (\<lambda>y. comp_id y = c) (pre @ x # post) = Some (length pre)"
    using assms(2) by (intro findIndex_first) simp_all
  then show ?thesis
    using assms(1) by (simp add: insertComponentAfter_def)
qed

text \<open>
  Claim C7, as the code has it.  When the element id resolves to no element of the document,
  context capture raises, the handler catches and logs the error, and nothing else happens:
  the component tree and the cache are unchanged and the log shows no generation call.
  When the element resolves, the handler has the fragment \<open>handlerFragment\<close> in hand (the
  cached one on a cache hit, else the generated one).  With no fragment, or with an empty
  component id, the store is unchanged.  Otherwise the fragment is placed directly after the
  first top-level component that carries the handler's component id, and is appended at the
  end of the root list when no top-level component carries it.
\<close>

theorem removed_element_no_placement:
  "(getElementById env elementId = None \<longrightarrow>
      store (recursiveHandlerBody env c elementId n ev w) = store w \<and>
      storage (recursiveHandlerBody env c elementId n ev w) = storage w \<and>
      logs (recursiveHandlerBody env c elementId n ev w) =
        logs w @
        [Log LogInfo ''FunctionResolver''
           (''Recursive handler triggered for '' @ n @ '' on '' @ c @ '':'' @ elementId),
         Log LogInfo ''ContextManager''
           (''Capturing context for recursive event on element: '' @ elementId),
         Log LogError ''ContextManager'' (''Could not find element with ID: '' @ elementId),
         handlerErrorEntry]) \<and>
   (\<forall>element.
      getElementById env elementId = Some element \<longrightarrow>
      (case handlerFragment env
              (captureFull env element (currentComponents (store w)) (target_value ev) None) w of
         None \<Rightarrow> store (recursiveHandlerBody env c elementId n ev w) = store w
       | Some ui \<Rightarrow>
           (c = [] \<longrightarrow> store (recursiveHandlerBody env c elementId n ev w) = store w) \<and>
           (c \<noteq> [] \<and> c \<notin> comp_id ` set (currentComponents (store w)) \<longrightarrow>
              currentComponents (store (recursiveHandlerBody env c elementId n ev w)) =
                currentComponents (store w) @ [ui]) \<and>
           (\<forall>pre x post.
              c \<noteq> [] \<and> currentComponents (store w) = pre @ x # post \<and> comp_id x = c \<and>
              c \<notin> comp_id ` set pre \<longrightarrow>
              currentComponents (store (recursiveHandlerBody env c elementId n ev w)) =
                pre @ x # ui # post)))"
proof (intro conjI impI allI)
  assume none: "getElementById env elementId = None"
  show "store (recursiveHandlerBody env c elementId n ev w) = store w"
    by (simp add: handler_capture_failed [OF none])
  show "storage (recursiveHandlerBody env c elementId n ev w) = storage w"
    by (simp add: handler_capture_failed [OF none])
  show "logs (recursiveHandlerBody env c elementId n ev w) =
        logs w @
        [Log LogInfo ''FunctionResolver''
           (''Recursive handler triggered for '' @ n @ '' on '' @ c @ '':'' @ elementId),
         Log LogInfo ''ContextManager''
           (''Capturing context for recursive event on element: '' @ elementId),
         Log LogError ''ContextManager'' (''Could not find element with ID: '' @ elementId),
         handlerErrorEntry]"
    by (simp add: handler_capture_failed [OF none] handlerErrorEntry_def)
next
  fix element
  assume el: "getElementById env elementId = Some element"
  define fragment where "fragment = handlerFragment env
      (captureFull env element (currentComponents (store w)) (target_value ev) None) w"
  have st: "store (recursiveHandlerBody env c elementId n ev w) =
     (case fragment of
        None \<Rightarrow> store w
      | Some ui \<Rightarrow> if c = [] then store w else insertComponentAfter c ui (store w))"
    unfolding fragment_def by (rule handler_store_fragment [OF el])
  show "case handlerFragment env
              (captureFull env element (currentComponents (store w)) (target_value ev) None) w of
         None \<Rightarrow> store (recursiveHandlerBody env c elementId n ev w) = store w
       | Some ui \<Rightarrow>
           (c = [] \<longrightarrow> store (recursiveHandlerBody env c elementId n ev w) = store w) \<and>
           (c \<noteq> [] \<and> c \<notin> comp_id ` set (currentComponents (store w)) \<longrightarrow>
              currentComponents (store (recursiveHandlerBody env c elementId n ev w)) =
                currentComponents (store w) @ [ui]) \<and>
           (\<forall>pre x post.
              c \<noteq> [] \<and> currentComponents (store w) = pre @ x # post \<and> comp_id x = c \<and>
              c \<notin> comp_id ` set pre \<longrightarrow>
              currentComponents (store (recursiveHandlerBody env c elementId n ev w)) =
                pre @ x # ui # post)"
    unfolding fragment_def [symmetric]
  proof (cases fragment)
    case None
    then show "case fragment of
         None \<Rightarrow> store (recursiveHandlerBody env c elementId n ev w) = store w
       | Some ui \<Rightarrow>
           (c = [] \<longrightarrow> store (recursiveHandlerBody env c elementId n ev w) = store w) \<and>
           (c \<noteq> [] \<and> c \<notin> comp_id ` set (currentComponents (store w)) \<longrightarrow>
              currentComponents (store (recursiveHandlerBody env c elementId n ev w)) =
                currentComponents (store w) @ [ui]) \<and>
           (\<forall>pre x post.
              c \<noteq> [] \<and> currentComponents (store w) = pre @ x # post \<and> comp_id x = c \<and>
              c \<notin> comp_id ` set pre \<longrightarrow>
              currentComponents (store (recursiveHandlerBody env c elementId n ev w)) =
                pre @ x # ui # post)"
      using st by simp
  next
    case (Some ui)
    have empty: "store (recursiveHandlerBody env c elementId n ev w) = store w" if "c = []"
      using st Some that by simp
    have absent: "currentComponents (store (recursiveHandlerBody env c elementId n ev w)) =
        currentComponents (store w) @ [ui]"
      if "c \<noteq> []" "c \<notin> comp_id ` set (currentComponents (store w))"
      using st Some that by (simp add: insertComponentAfter_not_found)
    have found: "currentComponents (store (recursiveHandlerBody env c elementId n ev w)) =
        pre @ x # ui # post"
      if "c \<noteq> []" "currentComponents (store w) = pre @ x # post" "comp_id x = c"
        "c \<notin> comp_id ` set pre" for pre x post
      using st Some that(1) insertComponentAfter_found [OF that(2,3,4), of ui] by simp
    show "case fragment of
         None \<Rightarrow> store (recursiveHandlerBody env c elementId n ev w) = store w
       | Some ui \<Rightarrow>
           (c = [] \<longrightarrow> store (recursiveHandlerBody env c elementId n ev w) = store w) \<and>
           (c \<noteq> [] \<and> c \<notin> comp_id ` set (currentComponents (store w)) \<longrightarrow>
              currentComponents (store (recursiveHandlerBody env c elementId n ev w)) =
                currentComponents (store w) @ [ui]) \<and>
           (\<forall>pre x post.
              c \<noteq> [] \<and> currentComponents (store w) = pre @ x # post \<and> comp_id x = c \<and>
              c \<notin> comp_id ` set pre \<longrightarrow>
              currentComponents (store (recursiveHandlerBody env c elementId n ev w)) =
                pre @ x # ui # post)"
      using Some empty absent found by simp
  qed
qed

text \<open>
  Claim C8, as the code has it.  When context capture raises, or when the cache has no entry
  and generation raises (or returns a reply without metadata), the handler logs the error
  last and the component tree is unchanged.  A cache probe that raises does not stop the
  handler: the tree ends as in a run whose probe finds nothing.  The handler returns a world
  in every case, so nothing escapes it.
\<close>

theorem handler_failure_leaves_tree:
  "(getElementById env elementId = None \<longrightarrow>
      store (recursiveHandlerBody env c elementId n ev w) = store w \<and>
      last (logs (recursiveHandlerBody env c elementId n ev w)) = handlerErrorEntry) \<and>
   (\<forall>element.
      getElementById env elementId = Some element \<and>
      fst (getCachedRecursiveResult env
             (captureFull env element (currentComponents (store w)) (target_value ev) None) w)
        = None \<and>
      (case fst (generateRecursiveUI env
                   (captureFull env element (currentComponents (store w)) (target_value ev)
                      None) w) of
         Inl msg \<Rightarrow> True
       | Inr result \<Rightarrow> rr_metadata result = None) \<longrightarrow>
      store (recursiveHandlerBody env c elementId n ev w) = store w \<and>
      last (logs (recursiveHandlerBody env c elementId n ev w)) = handlerErrorEntry) \<and>
   (getItemFails env \<longrightarrow>
      store (recursiveHandlerBody env c elementId n ev w) =
      store (recursiveHandlerBody (env\<lparr>getItemFails := False\<rparr>) c elementId n ev
               (w\<lparr>storage := Map.empty\<rparr>)))"
proof (intro conjI impI allI)
  assume none: "getElementById env elementId = None"
  show "store (recursiveHandlerBody env c elementId n ev w) = store w"
    by (simp add: handler_capture_failed [OF none])
  show "last (logs (recursiveHandlerBody env c elementId n ev w)) = handlerErrorEntry"
    by (simp add: handler_capture_failed [OF none] handlerErrorEntry_def)
next
  fix element
  assume a: "getElementById env elementId = Some element \<and>
      fst (getCachedRecursiveResult env
             (captureFull env element (currentComponents (store w)) (target_value ev) None) w)
        = None \<and>
      (case fst (generateRecursiveUI env
                   (captureFull env element (currentComponents (store w)) (target_value ev)
                      None) w) of
         Inl msg \<Rightarrow> True
       | Inr result \<Rightarrow> rr_metadata result = None)"
  then obtain w4 where w4: "store w4 = store w"
      "recursiveHandlerBody env c elementId n ev w = handlerFailed w4"
    using handler_generation_failed [of env elementId element w ev c n] by blast
  show "store (recursiveHandlerBody env c elementId n ev w) = store w"
    using w4 by simp
  show "last (logs (recursiveHandlerBody env c elementId n ev w)) = handlerErrorEntry"
    using w4 by (simp add: handlerErrorEntry_def)
next
  assume fails: "getItemFails env"
  show "store (recursiveHandlerBody env c elementId n ev w) =
      store (recursiveHandlerBody (env\<lparr>getItemFails := False\<rparr>) c elementId n ev
               (w\<lparr>storage := Map.empty\<rparr>))"
  proof (cases "getElementById env elementId")
    case None
    then have "getElementById (env\<lparr>getItemFails := False\<rparr>) elementId = None"
      by simp
    then show ?thesis
      by (simp add: handler_capture_failed [OF None] handler_capture_failed)
  next
    case (Some element)
    then have el': "getElementById (env\<lparr>getItemFails := False\<rparr>) elementId = Some element"
      by simp
    show ?thesis
      by (simp add: handler_store [OF Some] handler_store [OF el'] getCached_fails [OF fails]
          getCached_empty generateRecursiveUI_getItemFails [where w = w]
          split: sum.splits option.splits)
  qed
qed

lemma liveEnv_generation:
  "fst (generateRecursiveUI liveEnv cx w) = Inr cardReply"
  "fst (generateRecursiveUI probeFailEnv cx w) = Inr cardReply"
  "fst (generateRecursiveUI failedGenerationEnv cx w) =
     Inl ''Failed to generate recursive UI: network down''"
  by (simp_all add: generateRecursiveUI_def runChain_def liveEnv_def probeFailEnv_def
      failedGenerationEnv_def Let_def)

lemma liveEnv_element:
  "getElementById liveEnv ''btn-1'' = Some buttonElement"
  "getElementById probeFailEnv ''btn-1'' = Some buttonElement"
  "getElementById failedGenerationEnv ''btn-1'' = Some buttonElement"
  by (simp_all add: liveEnv_def probeFailEnv_def failedGenerationEnv_def)

lemma liveEnv_fragment:
  "handlerFragment liveEnv cx world0 = Some card1"
  "handlerFragment liveEnv cx twoCardWorld = Some card1"
  by (simp_all add: handlerFragment_def getCached_empty liveEnv_generation cardReply_def
      world0_def twoCardWorld_def)

lemma cachedWorld_fragment:
  "handlerFragment liveEnv
     (captureFull liveEnv buttonElement (currentComponents (store cachedWorld))
        (target_value clickEvent) None) cachedWorld = Some sibB"
proof -
  have cs: "currentComponents (store cachedWorld) = [searchBar]"
    "target_value clickEvent = None"
    by (simp_all add: cachedWorld_def world0_def clickEvent_def)
  have live: "\<not> getItemFails liveEnv"
    by (simp add: liveEnv_def)
  have "storage cachedWorld
      (createCacheKey (captureFull liveEnv buttonElement [searchBar] None None)) =
      Some \<lparr>entry_ui = Some sibB,
            entry_metadata = \<lparr>md_componentId = ''b'', md_reasoning = ''Cached earlier.''\<rparr>,
            createdAt = ''2024-12-31T00:00:00.000Z''\<rparr>"
    by (simp add: cachedWorld_def)
  then show ?thesis
    unfolding cs by (simp add: handlerFragment_def getCachedRecursiveResult_def Let_def live)
qed

theorem removed_element_no_placement_witness:
  "store (recursiveHandlerBody removedEnv ''search-1'' ''x'' ''onClick'' clickEvent world0) =
     store world0 \<and>
   last (logs (recursiveHandlerBody removedEnv ''search-1'' ''x'' ''onClick'' clickEvent world0)) =
     handlerErrorEntry \<and>
   currentComponents
     (store (recursiveHandlerBody liveEnv ''gone-card'' ''btn-1'' ''onClick'' clickEvent world0)) =
     [searchBar, card1] \<and>
   currentComponents
     (store (recursiveHandlerBody liveEnv ''gone-card'' ''btn-1'' ''onClick'' clickEvent
               cachedWorld)) = [searchBar, sibB] \<and>
   store (recursiveHandlerBody liveEnv [] ''btn-1'' ''onClick'' clickEvent world0) =
     store world0 \<and>
   currentComponents
     (store (recursiveHandlerBody liveEnv ''search-1'' ''btn-1'' ''onClick'' clickEvent
               twoCardWorld)) = [searchBar, card1, sibA]"
proof -
  have none: "getElementById removedEnv ''x'' = None"
    by (simp add: removedEnv_def)
  have cs: "currentComponents (store world0) = [searchBar]"
    "currentComponents (store cachedWorld) = [searchBar]"
    "currentComponents (store twoCardWorld) = [] @ searchBar # [sibA]"
    by (simp_all add: world0_def cachedWorld_def twoCardWorld_def)
  have ids: "''gone-card'' \<notin> comp_id ` set [searchBar]" "comp_id searchBar = ''search-1''"
    by (simp_all add: searchBar_def)
  note T1 = removed_element_no_placement
    [of removedEnv "''x''" "''search-1''" "''onClick''" clickEvent world0, THEN conjunct1,
      rule_format, OF none]
  note T2 = removed_element_no_placement
    [of liveEnv "''btn-1''" "''gone-card''" "''onClick''" clickEvent world0, THEN conjunct2,
      rule_format, OF liveEnv_element(1)]
  note T3 = removed_element_no_placement
    [of liveEnv "''btn-1''" "''gone-card''" "''onClick''" clickEvent cachedWorld,
      THEN conjunct2, rule_format, OF liveEnv_element(1)]
  note T4 = removed_element_no_placement
    [of liveEnv "''btn-1''" "[]" "''onClick''" clickEvent world0, THEN conjunct2,
      rule_format, OF liveEnv_element(1)]
  note T5 = removed_element_no_placement
    [of liveEnv "''btn-1''" "''search-1''" "''onClick''" clickEvent twoCardWorld,
      THEN conjunct2, rule_format, OF liveEnv_element(1)]
  have a: "currentComponents
     (store (recursiveHandlerBody liveEnv ''gone-card'' ''btn-1'' ''onClick'' clickEvent world0)) =
     [searchBar, card1]"
    using T2 [unfolded liveEnv_fragment(1) option.case] ids(1) by (simp add: cs(1))
  have b: "currentComponents
     (store (recursiveHandlerBody liveEnv ''gone-card'' ''btn-1'' ''onClick'' clickEvent
               cachedWorld)) = [searchBar, sibB]"
    using T3 [unfolded cachedWorld_fragment option.case] ids(1) by (simp add: cs(2))
  have c: "store (recursiveHandlerBody liveEnv [] ''btn-1'' ''onClick'' clickEvent world0) =
     store world0"
    using T4 [unfolded liveEnv_fragment(1) option.case] by simp
  have "currentComponents
     (store (recursiveHandlerBody liveEnv ''search-1'' ''btn-1'' ''onClick'' clickEvent
               twoCardWorld)) = [] @ searchBar # card1 # [sibA]"
    using T5 [unfolded liveEnv_fragment(2) option.case, THEN conjunct2, THEN conjunct2,
        rule_format, of "[]" searchBar "[sibA]"] cs(3) ids(2)
    by simp
  then show ?thesis
    using T1 a b c by simp
qed

text \<open>
  Claim C7 as stated fails: for an element that is gone, context capture raises and the
  fragment that generation would return is not appended at the root.
\<close>

theorem removed_element_counterexample:
  "getElementById removedEnv ''x'' = None \<and>
   fst (captureContext removedEnv ''x'' clickEvent world0) =
     Inl ''Element with ID x not found for context capture.'' \<and>
   fst (generateRecursiveUI removedEnv
          (captureFull removedEnv buttonElement (currentComponents (store world0)) None None)
          world0) = Inr cardReply \<and>
   rr_ui cardReply = Some card1 \<and>
   currentComponents
     (store (recursiveHandlerBody removedEnv ''search-1'' ''x'' ''onClick'' clickEvent world0)) =
     [searchBar] \<and>
   currentComponents
     (store (recursiveHandlerBody removedEnv ''search-1'' ''x'' ''onClick'' clickEvent world0)) \<noteq>
     currentComponents (store world0) @ [card1]"
proof -
  have none: "getElementById removedEnv ''x'' = None"
    by (simp add: removedEnv_def)
  have "fst (generateRecursiveUI removedEnv
          (captureFull removedEnv buttonElement (currentComponents (store world0)) None None)
          world0) = Inr cardReply"
    by (simp add: generateRecursiveUI_def runChain_def removedEnv_def Let_def)
  then show ?thesis
    using none
    by (simp add: handler_capture_failed [OF none] captureContext_None [OF none] world0_def
        cardReply_def)
qed

theorem handler_failure_leaves_tree_witness:
  "store (recursiveHandlerBody removedEnv ''search-1'' ''x'' ''onClick'' clickEvent world0) =
     store world0 \<and>
   store (recursiveHandlerBody failedGenerationEnv ''search-1'' ''btn-1'' ''onClick'' clickEvent
            world0) = store world0 \<and>
   last (logs (recursiveHandlerBody failedGenerationEnv ''search-1'' ''btn-1'' ''onClick''
                 clickEvent world0)) = handlerErrorEntry"
proof -
  have none: "getElementById removedEnv ''x'' = None"
    by (simp add: removedEnv_def)
  have miss: "fst (getCachedRecursiveResult failedGenerationEnv
      (captureFull failedGenerationEnv buttonElement (currentComponents (store world0))
         (target_value clickEvent) None) world0) = None"
    by (rule getCached_empty) (simp add: world0_def)
  note T1 = handler_failure_leaves_tree
    [of removedEnv "''x''" "''search-1''" "''onClick''" clickEvent world0, THEN conjunct1,
      rule_format, OF none]
  note T2 = handler_failure_leaves_tree
    [of failedGenerationEnv "''btn-1''" "''search-1''" "''onClick''" clickEvent world0,
      THEN conjunct2, THEN conjunct1, rule_format, of buttonElement]
  have "store (recursiveHandlerBody failedGenerationEnv ''search-1'' ''btn-1'' ''onClick''
          clickEvent world0) = store world0 \<and>
        last (logs (recursiveHandlerBody failedGenerationEnv ''search-1'' ''btn-1'' ''onClick''
          clickEvent world0)) = handlerErrorEntry"
    using T2 liveEnv_element(3) miss by (simp add: liveEnv_generation)
  then show ?thesis
    using T1 by simp
qed

text \<open>
  Claim C8 as stated fails for the cache probe: the read of the store raises, the probe
  answers \<open>null\<close>, generation runs and the generated card is inserted.
\<close>

theorem cache_probe_failure_counterexample:
  "getItemFails probeFailEnv \<and>
   fst (getCachedRecursiveResult probeFailEnv
          (captureFull probeFailEnv buttonElement (currentComponents (store world0)) None None)
          world0) = None \<and>
   currentComponents
     (store (recursiveHandlerBody probeFailEnv ''search-1'' ''btn-1'' ''onClick'' clickEvent
               world0)) = [searchBar, card1] \<and>
   store (recursiveHandlerBody probeFailEnv ''search-1'' ''btn-1'' ''onClick'' clickEvent world0) \<noteq>
     store world0"
proof -
  have fails: "getItemFails probeFailEnv"
    by (simp add: probeFailEnv_def)
  have "currentComponents
     (store (recursiveHandlerBody probeFailEnv ''search-1'' ''btn-1'' ''onClick'' clickEvent
               world0)) = [searchBar, card1]"
    by (simp add: handler_store [OF liveEnv_element(2)] getCached_fails [OF fails]
        liveEnv_generation cardReply_def insertComponentAfter_def world0_def searchBar_def)
  moreover have "currentComponents (store world0) = [searchBar]"
    by (simp add: world0_def)
  ultimately show ?thesis
    using fails getCached_fails [OF fails] by (metis list.inject not_Cons_self2)
qed

section \<open>Properties of the patch service\<close>

lemma startedRequests_append:
  "startedRequests (xs @ ys) = startedRequests xs @ startedRequests ys"
  by (induction xs rule: startedRequests.induct) simp_all

lemma inFlightAfter_append:
  "inFlightAfter current (xs @ ys) =
     (case inFlightAfter current xs of
        None \<Rightarrow> None
      | Some current' \<Rightarrow> inFlightAfter current' ys)"
  by (induction current xs rule: inFlightAfter.induct) simp_all

lemma patch_logEntry [simp]:
  "patchQueue (logEntry e s) = patchQueue s"
  "isProcessing (logEntry e s) = isProcessing s"
  "awaiting (logEntry e s) = awaiting s"
  "appStore (logEntry e s) = appStore s"
  by (simp_all add: logEntry_def)

lemma patch_logger [simp]:
  "patchQueue (logger l c m s) = patchQueue s"
  "isProcessing (logger l c m s) = isProcessing s"
  "awaiting (logger l c m s) = awaiting s"
  "appStore (logger l c m s) = appStore s"
  by (simp_all add: logger_def)

text \<open>The queue is looked at while nothing is in flight.\<close>

lemma processQueue_idle:
  assumes "\<not> isProcessing s" and "awaiting s = []"
    and "inFlightAfter None (logs s) = Some None"
  shows "patchInv (startedRequests (logs s) @ patchQueue s) (processQueue s)"
  using assms
proof (induction s rule: processQueue.induct)
  case (1 s)
  show ?case
  proof (cases "patchQueue s")
    case Nil
    then show ?thesis
      using "1.prems"
      by (simp add: processQueue.simps [of s] patchInv_def currentOperation_def)
  next
    case (Cons r rest)
    define request where "request = hd (patchQueue s)"
    define cid where "cid = req_componentId request"
    define s1 where "s1 = logEntry (PatchProcessing cid (req_error request))
        (logEntry (OperationStarted ''PatchService'' (operationName cid))
           (s\<lparr>isProcessing := True, patchQueue := tl (patchQueue s)\<rparr>))"
    have cond: "\<not> (isProcessing s \<or> patchQueue s = [])"
      using "1.prems"(1) Cons by simp
    have req: "request = r"
      using Cons by (simp add: request_def)
    have started1: "startedRequests (logs s1) = startedRequests (logs s) @ [request]"
      by (simp add: s1_def startedRequests_append cid_def)
    have flight1: "inFlightAfter None (logs s1) = Some (Some (operationName cid))"
      using "1.prems"(3) by (simp add: s1_def inFlightAfter_append)
    have aw: "awaiting s1 = []" "patchQueue s1 = rest" "isProcessing s1"
      using "1.prems"(2) Cons by (simp_all add: s1_def)
    show ?thesis
    proof (cases "findComponent (map ChildComponent (currentComponents (appStore s1))) cid")
      case None
      define s2 where "s2 = logEntry (OperationEnded ''PatchService'' (operationName cid) False)
          ((logger LogError ''PatchService'' ''Component not found in state.'' s1)
             \<lparr>isProcessing := False\<rparr>)"
      have fc: "findComponent (map ChildComponent (currentComponents (appStore s)))
          (req_componentId (hd (patchQueue s))) = None"
        using None by (simp add: s1_def cid_def request_def)
      have unfold: "processQueue s = processQueue s2"
        unfolding s2_def s1_def cid_def request_def
        using cond fc by (subst processQueue.simps) (simp add: Let_def)
      have idle2: "\<not> isProcessing s2" "awaiting s2 = []"
        using aw by (simp_all add: s2_def)
      have flight2: "inFlightAfter None (logs s2) = Some None"
        using flight1 by (simp add: s2_def inFlightAfter_append)
      have IH: "patchInv (startedRequests (logs s2) @ patchQueue s2) (processQueue s2)"
        using "1.IH" [OF cond request_def cid_def s1_def None, folded s2_def] idle2 flight2
        by simp
      have "startedRequests (logs s2) @ patchQueue s2 = startedRequests (logs s) @ patchQueue s"
        using started1 Cons aw req by (simp add: s2_def startedRequests_append)
      then show ?thesis
        using IH unfold by simp
    next
      case (Some componentToFix)
      have fc: "findComponent (map ChildComponent (currentComponents (appStore s)))
          (req_componentId (hd (patchQueue s))) = Some componentToFix"
        using Some by (simp add: s1_def cid_def request_def)
      have unfold: "processQueue s =
          (logger LogInfo ''PatchService'' ''Calling ErrorPatchService.attemptFix'' s1)
            \<lparr>awaiting := awaiting s1 @ [\<lparr>sus_request = request, sus_component = componentToFix\<rparr>]\<rparr>"
        unfolding s1_def cid_def request_def
        using cond fc by (subst processQueue.simps) (simp add: Let_def)
      show ?thesis
        using started1 flight1 aw Cons req
        by (simp add: unfold patchInv_def currentOperation_def startedRequests_append
            inFlightAfter_append cid_def)
    qed
  qed
qed

lemma processQueue_busy: "isProcessing s \<Longrightarrow> processQueue s = s"
  by (simp add: processQueue.simps [of s])

lemma patchInv_queuePatch:
  assumes "patchInv requests s"
  shows "patchInv (requests @ [\<lparr>req_componentId = componentId, req_error = err\<rparr>])
           (queuePatch componentId err s)"
proof -
  define s1 where "s1 = (logger LogInfo ''PatchService'' ''Queueing patch request'' s)
      \<lparr>patchQueue := patchQueue s @ [\<lparr>req_componentId = componentId, req_error = err\<rparr>]\<rparr>"
  have q: "queuePatch componentId err s = processQueue s1"
    by (simp add: queuePatch_def s1_def)
  have logs1: "startedRequests (logs s1) = startedRequests (logs s)"
    "inFlightAfter None (logs s1) = inFlightAfter None (logs s)"
    by (simp_all add: s1_def startedRequests_append inFlightAfter_append split: option.splits)
  show ?thesis
  proof (cases "isProcessing s")
    case True
    then have "processQueue s1 = s1"
      by (intro processQueue_busy) (simp add: s1_def)
    then show ?thesis
      using assms True logs1 by (simp add: q patchInv_def s1_def currentOperation_def)
  next
    case False
    then have idle: "\<not> isProcessing s1" "awaiting s1 = []"
      using assms by (simp_all add: s1_def patchInv_def)
    have "inFlightAfter None (logs s1) = Some None"
      using assms False logs1 by (simp add: patchInv_def currentOperation_def)
    from processQueue_idle [OF idle this]
    show ?thesis
      using assms logs1 by (simp add: q patchInv_def s1_def)
  qed
qed

lemma patchInv_afterFix:
  assumes "patchInv requests s"
  shows "patchInv requests (afterFix jsonParse k fixed s)"
proof (cases "k < length (awaiting s)")
  case False
  then show ?thesis
    using assms by (simp add: afterFix_def)
next
  case True
  then obtain p where aw: "awaiting s = [p]" and k: "k = 0"
    using assms by (cases "awaiting s") (auto simp: patchInv_def)
  define cid where "cid = req_componentId (sus_request p)"
  define patched where "patched = (fixed \<noteq> None \<and> fixed \<noteq> Some [])"
  define s1 where "s1 = s\<lparr>awaiting := []\<rparr>"
  define s2 where "s2 = (if patched
                   then (case jsonParse (the fixed) of
                           Inr patchedComponent \<Rightarrow>
                             logger LogInfo ''PatchService'' ''Component updated successfully''
                               (s1\<lparr>appStore :=
                                     updateComponent cid patchedComponent (appStore s1)\<rparr>)
                         | Inl msg \<Rightarrow>
                             logger LogError ''PatchService''
                               ''Failed to parse patched component JSON'' s1)
                   else logger LogError ''PatchService'' ''No patch generated for component'' s1)"
  define s3 where "s3 = (logEntry (OperationEnded ''PatchService'' (operationName cid) patched)
                  s2)\<lparr>isProcessing := False\<rparr>"
  have run: "afterFix jsonParse k fixed s = processQueue s3"
    using aw k
    by (simp add: afterFix_def Let_def s3_def s2_def s1_def cid_def patched_def
        cong: sum.case_cong if_cong)
  have s2: "awaiting s2 = []" "patchQueue s2 = patchQueue s"
    "startedRequests (logs s2) = startedRequests (logs s)"
    "inFlightAfter None (logs s2) = inFlightAfter None (logs s)"
    by (auto simp: s2_def s1_def startedRequests_append inFlightAfter_append
        split: sum.splits option.splits)
  have idle: "\<not> isProcessing s3" "awaiting s3 = []"
    using s2 by (simp_all add: s3_def)
  have "inFlightAfter None (logs s) = Some (Some (operationName cid))"
    using assms aw by (simp add: patchInv_def currentOperation_def cid_def)
  then have flight: "inFlightAfter None (logs s3) = Some None"
    using s2 by (simp add: s3_def inFlightAfter_append)
  have "startedRequests (logs s3) @ patchQueue s3 = requests"
    using assms s2 by (simp add: s3_def startedRequests_append patchInv_def)
  then show ?thesis
    using processQueue_idle [OF idle flight] run by simp
qed

lemma patchInv_initial: "patchInv [] (initialPatchService cs)"
  by (simp add: patchInv_def initialPatchService_def currentOperation_def)

lemma enqueued_append: "enqueued (xs @ ys) = enqueued xs @ enqueued ys"
  by (induction xs rule: enqueued.induct) simp_all

lemma patchInv_step:
  assumes "patchInv requests s"
  shows "patchInv (requests @ enqueued [ev]) (patchStep jsonParse s ev)"
proof (cases ev)
  case (QueuePatch componentId err)
  then show ?thesis
    using patchInv_queuePatch [OF assms] by simp
next
  case (FixSettled k fixed)
  then show ?thesis
    using patchInv_afterFix [OF assms] by simp
next
  case (StoreReplaced cs)
  then show ?thesis
    using assms by (simp add: patchInv_def currentOperation_def)
qed

lemma patchInv_run:
  "patchInv (enqueued events) (runPatchService jsonParse cs events)"
proof (induction events rule: rev_induct)
  case Nil
  then show ?case
    by (simp add: runPatchService_def patchInv_initial)
next
  case (snoc ev events)
  then show ?case
    using patchInv_step [of "enqueued events" "runPatchService jsonParse cs events" ev jsonParse]
    by (simp add: runPatchService_def enqueued_append)
qed

text \<open>
  Claim C9.  After any sequence of events, at most one fix attempt is suspended; the
  operation entries of the whole log alternate between the start of an operation and the end
  of the same operation, so an operation starts only after the one before it has ended
  (with success or with failure), and the operation in flight at the end is the suspended
  one; and the requests announced as processed, followed by the requests still waiting, are
  the enqueued requests in the order of their enqueuing.
\<close>

theorem patch_queue_serial_fifo:
  "length (awaiting (runPatchService jsonParse cs events)) \<le> 1 \<and>
   inFlightAfter None (logs (runPatchService jsonParse cs events)) =
     Some (currentOperation (runPatchService jsonParse cs events)) \<and>
   startedRequests (logs (runPatchService jsonParse cs events)) @
     patchQueue (runPatchService jsonParse cs events) = enqueued events"
  using patchInv_run [of events jsonParse cs] by (simp add: patchInv_def)

lemmas patch_eval = runPatchService_def initialPatchService_def queuePatch_def afterFix_def
  processQueue.simps logger_def logEntry_def Let_def searchBar_def card1_def exampleEvents_def
  noParse_def

lemma exampleEvents_run:
  "map (\<lambda>p. req_componentId (sus_request p))
     (awaiting (runPatchService noParse [searchBar, card1] exampleEvents)) = [''search-1'']"
  by (simp add: patch_eval)

lemma exampleEvents_queue:
  "patchQueue (runPatchService noParse [searchBar, card1] exampleEvents) = []"
  by (simp add: patch_eval)

theorem patch_queue_serial_fifo_witness:
  "length (awaiting (runPatchService noParse [searchBar, card1] exampleEvents)) \<le> 1 \<and>
   startedRequests (logs (runPatchService noParse [searchBar, card1] exampleEvents)) =
     [\<lparr>req_componentId = ''card-1'', req_error = ''boom''\<rparr>,
      \<lparr>req_componentId = ''missing'', req_error = ''crash''\<rparr>,
      \<lparr>req_componentId = ''search-1'', req_error = ''bang''\<rparr>] \<and>
   inFlightAfter None (logs (runPatchService noParse [searchBar, card1] exampleEvents)) =
     Some (Some (operationName ''search-1''))"
proof -
  have aw: "\<exists>p. awaiting (runPatchService noParse [searchBar, card1] exampleEvents) = [p] \<and>
      req_componentId (sus_request p) = ''search-1''"
    using exampleEvents_run by (cases "awaiting (runPatchService noParse [searchBar, card1] exampleEvents)") auto
  have "enqueued exampleEvents =
     [\<lparr>req_componentId = ''card-1'', req_error = ''boom''\<rparr>,
      \<lparr>req_componentId = ''missing'', req_error = ''crash''\<rparr>,
      \<lparr>req_componentId = ''search-1'', req_error = ''bang''\<rparr>]"
    by (simp add: exampleEvents_def)
  then show ?thesis
    using patch_queue_serial_fifo [of noParse "[searchBar, card1]" exampleEvents]
      exampleEvents_queue aw
    by (auto simp: currentOperation_def)
qed

end
